theory Spec2Isabelle
  imports Complex_Main "HOL-Library.Word" "HOL-Library.Monad_Syntax"
begin

section \<open>Node buffers and their readers\<close>

text \<open>
  A Node \<open>Buffer\<close> is a sequence of bytes. Offsets are JavaScript numbers; the
  decoders only ever compute integers, so an offset is an \<open>int\<close> (the helpers of
  \<open>telemetry.js\<close> test \<open>offset < 0\<close>). The raw readers of Node
  (\<open>readUInt8\<close>, \<open>readInt8\<close>, \<open>readUInt16LE\<close>, \<open>readUInt32LE\<close>,
  \<open>readBigUInt64LE\<close>, \<open>readFloatLE\<close>) throw a \<open>RangeError\<close> when the bytes
  they need are not all inside the buffer. A call that may throw returns an option:
  \<open>None\<close> is the thrown \<open>RangeError\<close>, the only exception these programs can
  meet while decoding.
\<close>

type_synonym buffer = "8 word list"

fun le_nat :: "8 word list \<Rightarrow> nat" where
  "le_nat [] = 0"
| "le_nat (x # xs) = unat x + 256 * le_nat xs"

text \<open>\<open>buffer.slice(start, end)\<close> for \<open>0 \<le> start\<close>: the end is clamped to the buffer.\<close>

definition slice :: "buffer \<Rightarrow> nat \<Rightarrow> nat \<Rightarrow> buffer" where
  "slice b start stop = take (stop - start) (drop start b)"

definition in_range :: "buffer \<Rightarrow> int \<Rightarrow> nat \<Rightarrow> bool" where
  "in_range b off n = (0 \<le> off \<and> off + int n \<le> int (length b))"

definition readUInt8 :: "buffer \<Rightarrow> int \<Rightarrow> nat option" where
  "readUInt8 b off = (if in_range b off 1 then Some (unat (b ! nat off)) else None)"

definition readInt8 :: "buffer \<Rightarrow> int \<Rightarrow> int option" where
  "readInt8 b off = (if in_range b off 1 then Some (sint (b ! nat off)) else None)"

definition readUIntLE :: "nat \<Rightarrow> buffer \<Rightarrow> int \<Rightarrow> nat option" where
  "readUIntLE n b off =
     (if in_range b off n then Some (le_nat (take n (drop (nat off) b))) else None)"

abbreviation readUInt16LE :: "buffer \<Rightarrow> int \<Rightarrow> nat option" where
  "readUInt16LE \<equiv> readUIntLE 2"

abbreviation readUInt32LE :: "buffer \<Rightarrow> int \<Rightarrow> nat option" where
  "readUInt32LE \<equiv> readUIntLE 4"

abbreviation readBigUInt64LE :: "buffer \<Rightarrow> int \<Rightarrow> nat option" where
  "readBigUInt64LE \<equiv> readUIntLE 8"

text \<open>
  \<open>readFloatLE\<close> returns a JavaScript number. No arithmetic on it is modelled; what
  is modelled is which number it is. Every binary32 bit pattern that is not a NaN
  denotes its own number (\<open>+0\<close> and \<open>-0\<close> included), named here by the pattern
  itself; all NaN patterns (exponent 255, mantissa not 0) denote the one JavaScript
  value \<open>NaN\<close>, which carries no payload.
\<close>

datatype f32 = NaN | F32 nat

definition f32_of_bits :: "nat \<Rightarrow> f32" where
  "f32_of_bits n =
     (if (n div 2 ^ 23) mod 256 = 255 \<and> 0 < n mod 2 ^ 23 then NaN else F32 n)"

definition readFloatLE :: "buffer \<Rightarrow> int \<Rightarrow> f32 option" where
  "readFloatLE b off = map_option f32_of_bits (readUIntLE 4 b off)"

text \<open>
  What the programs do with numbers and text beyond integers is left to the
  JavaScript library and taken as a parameter: the decimal rendering of floats and
  the UTF-8 decoding of a name. Every theorem below holds for any such library.
\<close>

record jslib =
  utf8_clean :: "buffer \<Rightarrow> string"
    \<comment> \<open>\<open>slice.toString('utf8').replace(/\0/g, '').trim()\<close>\<close>
  pct_fixed1 :: "f32 \<Rightarrow> string"
    \<comment> \<open>\<open>(x * 100).toFixed(1)\<close>\<close>
  fixed :: "nat \<Rightarrow> f32 \<Rightarrow> string"
    \<comment> \<open>\<open>x.toFixed(d)\<close>\<close>
  ers_fixed1 :: "f32 \<Rightarrow> string"
    \<comment> \<open>\<open>(x / 4000000 * 100).toFixed(1)\<close>\<close>
  error_message :: string
    \<comment> \<open>the \<open>message\<close> of a caught \<open>RangeError\<close>\<close>

subsection \<open>Decimal text of an integer, \<open>padStart\<close>, \<open>||\<close>\<close>

function dec :: "nat \<Rightarrow> string" where
  "dec n = (if n < 10 then [char_of (48 + n)] else dec (n div 10) @ [char_of (48 + n mod 10)])"
  by pat_completeness auto
termination
  by (relation "measure (\<lambda>n. n)") auto

definition padStart :: "string \<Rightarrow> nat \<Rightarrow> char \<Rightarrow> string" where
  "padStart s n c = replicate (n - length s) c @ s"

text \<open>\<open>x || d\<close> on a string that may be \<open>undefined\<close>: both \<open>undefined\<close> and \<open>''\<close> are falsy.\<close>

definition or_else :: "string option \<Rightarrow> string \<Rightarrow> string" where
  "or_else x d = (case x of None \<Rightarrow> d | Some s \<Rightarrow> if s = [] then d else s)"

text \<open>Indexing an array literal by a number: \<open>undefined\<close> outside \<open>0 .. length - 1\<close>.\<close>

definition js_index :: "'a list \<Rightarrow> int \<Rightarrow> 'a option" where
  "js_index xs i = (if 0 \<le> i \<and> i < int (length xs) then Some (xs ! nat i) else None)"

section \<open>The packet header (\<open>parseHeader\<close>, \<open>_parsePacketHeader\<close>)\<close>

record packet_header =
  packetFormat :: nat
  gameYear :: nat
  gameMajorVersion :: nat
  gameMinorVersion :: nat
  packetVersion :: nat
  packetId :: nat
  sessionUID :: nat
  sessionTime :: f32
  frameIdentifier :: nat
  overallFrameIdentifier :: nat
  playerCarIndex :: nat
  secondaryPlayerCarIndex :: nat

text \<open>
  \<open>parseHeader\<close> of \<open>telemetry.js\<close>. \<open>None\<close> is the returned \<open>null\<close>: the
  \<open>catch\<close> around the reads turns a thrown \<open>RangeError\<close> into \<open>null\<close> as well.
\<close>

definition parseHeader :: "buffer \<Rightarrow> packet_header option" where
  "parseHeader b =
     (if length b < 29 then None
      else do {
        pf \<leftarrow> readUInt16LE b 0;
        gy \<leftarrow> readUInt8 b 2;
        gmaj \<leftarrow> readUInt8 b 3;
        gmin \<leftarrow> readUInt8 b 4;
        pv \<leftarrow> readUInt8 b 5;
        pid \<leftarrow> readUInt8 b 6;
        uid \<leftarrow> readBigUInt64LE b 7;
        st \<leftarrow> readFloatLE b 15;
        fi \<leftarrow> readUInt32LE b 19;
        ofi \<leftarrow> readUInt32LE b 23;
        pci \<leftarrow> readUInt8 b 27;
        spci \<leftarrow> readUInt8 b 28;
        Some \<lparr> packetFormat = pf, gameYear = gy, gameMajorVersion = gmaj,
               gameMinorVersion = gmin, packetVersion = pv, packetId = pid,
               sessionUID = uid, sessionTime = st, frameIdentifier = fi,
               overallFrameIdentifier = ofi, playerCarIndex = pci,
               secondaryPlayerCarIndex = spci \<rparr>
      })"

subsection \<open>Re-encoding a header\<close>

fun le_bytes :: "nat \<Rightarrow> nat \<Rightarrow> 8 word list" where
  "le_bytes 0 n = []"
| "le_bytes (Suc k) n = of_nat (n mod 256) # le_bytes k (n div 256)"

text \<open>
  Modelled from the spec: the repository decodes headers and has no header encoder.
  The spec's round trip re-encodes the twelve fields of its section 3 at their fixed
  little-endian offsets (u16 at 0, five u8 at 2..6, u64 at 7, f32 at 15, u32 at 19
  and 23, u8 at 27 and 28). A number that is not NaN is written with its own bit
  pattern; \<open>NaN\<close> has none of its own and is written as the quiet NaN
  \<open>0x7FC00000\<close>.
\<close>

definition f32_bits :: "f32 \<Rightarrow> nat" where
  "f32_bits x = (case x of NaN \<Rightarrow> 2143289344 | F32 n \<Rightarrow> n)"

definition encodeHeader :: "packet_header \<Rightarrow> buffer" where
  "encodeHeader h =
     le_bytes 2 (packetFormat h) @ le_bytes 1 (gameYear h)
     @ le_bytes 1 (gameMajorVersion h) @ le_bytes 1 (gameMinorVersion h)
     @ le_bytes 1 (packetVersion h) @ le_bytes 1 (packetId h)
     @ le_bytes 8 (sessionUID h) @ le_bytes 4 (f32_bits (sessionTime h))
     @ le_bytes 4 (frameIdentifier h) @ le_bytes 4 (overallFrameIdentifier h)
     @ le_bytes 1 (playerCarIndex h) @ le_bytes 1 (secondaryPlayerCarIndex h)"

text \<open>The bit pattern stored at offset 15 of a datagram.\<close>

definition sessionTimeBits :: "buffer \<Rightarrow> nat" where
  "sessionTimeBits b = le_nat (take 4 (drop 15 b))"

text \<open>
  A 29-byte header, all zero but for the session time, whose four bytes are
  \<open>lo, 0, hi, 0x7F\<close>: \<open>nanHeader 1 128\<close> carries the signalling NaN \<open>0x7F800001\<close>,
  \<open>nanHeader 0 192\<close> the quiet NaN \<open>0x7FC00000\<close>.
\<close>

definition nanHeader :: "8 word \<Rightarrow> 8 word \<Rightarrow> buffer" where
  "nanHeader lo hi =
     [0, 0, 0, 0, 0, 0, 0, 0, 0, 0, 0, 0, 0, 0, 0, lo, 0, hi, 127,
      0, 0, 0, 0, 0, 0, 0, 0, 0, 0]"

section \<open>The telemetry logger (\<open>telemetry.js\<close>)\<close>

subsection \<open>Bounds-checked readers\<close>

text \<open>
  Each helper returns its default when its own test fails and calls the raw reader
  otherwise; that the raw reader then never throws is a lemma, not an assumption.
\<close>

definition safeReadUInt8 :: "buffer \<Rightarrow> int \<Rightarrow> nat option" where
  "safeReadUInt8 b off =
     (if off < 0 \<or> int (length b) \<le> off then Some 0 else readUInt8 b off)"

definition safeReadUInt16LE :: "buffer \<Rightarrow> int \<Rightarrow> nat option" where
  "safeReadUInt16LE b off =
     (if off < 0 \<or> int (length b) \<le> off + 1 then Some 0 else readUInt16LE b off)"

definition safeReadFloatLE :: "buffer \<Rightarrow> int \<Rightarrow> f32 option" where
  "safeReadFloatLE b off =
     (if off < 0 \<or> int (length b) \<le> off + 3 then Some (F32 0) else readFloatLE b off)"

definition safeReadString :: "jslib \<Rightarrow> buffer \<Rightarrow> int \<Rightarrow> nat \<Rightarrow> string" where
  "safeReadString L b off len =
     (if off < 0 \<or> int (length b) < off + int len then []
      else utf8_clean L (slice b (nat off) (min (nat off + len) (length b))))"

subsection \<open>Lookup tables and formatting\<close>

definition formatTime :: "nat \<Rightarrow> string" where
  "formatTime milliseconds =
     (if milliseconds = 0 \<or> 999999999 < milliseconds then ''--:--''
      else dec (milliseconds div 60000) @ '':''
           @ padStart (dec ((milliseconds mod 60000) div 1000)) 2 (CHR ''0'') @ ''.''
           @ padStart (dec (milliseconds mod 1000)) 3 (CHR ''0''))"

definition getWeatherString :: "int \<Rightarrow> string" where
  "getWeatherString weather =
     or_else (js_index [''Clear'', ''Light Cloud'', ''Overcast'', ''Light Rain'',
                        ''Heavy Rain'', ''Storm''] weather) ''Unknown''"

definition getSessionTypeString :: "int \<Rightarrow> string" where
  "getSessionTypeString type =
     or_else (js_index [''Unknown'', ''FP1'', ''FP2'', ''FP3'', ''Short FP'', ''Q1'', ''Q2'',
                        ''Q3'', ''Short Q'', ''OSQ'', ''R'', ''Sprint Shootout 1'',
                        ''Sprint Shootout 2'', ''Sprint Shootout 3'',
                        ''Short Sprint Shootout'', ''R2'', ''R3'', ''Time Trial''] type)
       ''Unknown''"

definition getTyreCompoundString :: "int \<Rightarrow> string" where
  "getTyreCompoundString compound =
     or_else (map_of [(16, ''C5''), (17, ''C4''), (18, ''C3''), (19, ''C2''), (20, ''C1''),
                      (21, ''C0''), (7, ''Inter''), (8, ''Wet''), (9, ''Dry''), (10, ''Wet''),
                      (11, ''Super Soft''), (12, ''Soft''), (13, ''Medium''), (14, ''Hard''),
                      (15, ''Wet'')] compound) ''Unknown''"

definition getPitStatusString :: "int \<Rightarrow> string" where
  "getPitStatusString status =
     or_else (js_index [''None'', ''Pitting'', ''In Pit''] status) ''Unknown''"

definition getDriverStatusString :: "int \<Rightarrow> string" where
  "getDriverStatusString status =
     or_else (js_index [''In Garage'', ''Flying Lap'', ''In Lap'', ''Out Lap'', ''On Track'']
        status) ''Unknown''"

definition getERSModeString :: "int \<Rightarrow> string" where
  "getERSModeString mode =
     or_else (js_index [''None'', ''Medium'', ''Hotlap'', ''Overtake''] mode) ''Unknown''"

definition getFlagString :: "int \<Rightarrow> string" where
  "getFlagString flag =
     or_else (map_of [(- 1, ''Invalid''), (0, ''None''), (1, ''Green''), (2, ''Blue''),
                      (3, ''Yellow''), (4, ''Red'')] flag) ''None''"

subsection \<open>The drivers table and the session record\<close>

datatype str_or_num = Str string | Num int

record DriverTelemetry =
  speed :: nat
  throttle :: string
  brake :: string
  gear :: str_or_num
  engineRPM :: nat
  drs :: string
  engineTemp :: nat
  tyreTemp :: nat
  brakeTemp :: nat

record DriverLapData =
  position :: nat
  currentLap :: nat
  lastLapTime :: string
  currentLapTime :: string
  pitStatus :: string
  penalties :: nat
  warnings :: nat
  driverStatus :: string

record DriverCarStatus =
  fuel :: string
  fuelLaps :: string
  tyreCompound :: string
  tyreAge :: nat
  ersEnergy :: string
  ersMode :: string
  flags :: string

text \<open>
  An entry of \<open>drivers\<close>. \<open>parseParticipants\<close> creates it as \<open>{}\<close> and sets the five
  identity fields before anything else can run, so an entry always has them; the
  three sub-records are absent until their packet kind arrives.
\<close>

record Driver =
  name :: string
  raceNumber :: nat
  teamId :: nat
  isPlayer :: bool
  isAI :: bool
  telemetry :: "DriverTelemetry option"
  lapData :: "DriverLapData option"
  carStatus :: "DriverCarStatus option"

record SessionInfo =
  trackName :: string
  sessionType :: string
  weather :: string
  trackTemp :: int
  airTemp :: int
  totalLaps :: nat
  trackId :: "int option"

text \<open>
  The module-level state of \<open>telemetry.js\<close>. \<open>console\<close> collects what the decoders
  and the message handler print with \<open>console.log\<close> (colours dropped).
\<close>

record logger =
  drivers :: "nat \<rightharpoonup> Driver"
  sessionInfo :: SessionInfo
  packetCount :: nat
  errorCount :: nat
  console :: "string list"

text \<open>
  How a call ends: it returns, or it throws; either way the state it has written so
  far stays written.
\<close>

datatype 's completion = Returns 's | Throws 's

fun state_of :: "'s completion \<Rightarrow> 's" where
  "state_of (Returns s) = s"
| "state_of (Throws s) = s"

fun map_completion :: "('s \<Rightarrow> 't) \<Rightarrow> 's completion \<Rightarrow> 't completion" where
  "map_completion f (Returns s) = Returns (f s)"
| "map_completion f (Throws s) = Throws (f s)"

subsection \<open>Participants\<close>

text \<open>The reads of one \<open>ParticipantData\<close> record: \<open>(aiControlled, teamId, raceNumber, name)\<close>.\<close>

definition participantData ::
  "jslib \<Rightarrow> buffer \<Rightarrow> nat \<Rightarrow> int \<Rightarrow> (bool \<times> nat \<times> nat \<times> string) option" where
  "participantData L b i offset = do {
     aiControlled \<leftarrow> safeReadUInt8 b offset;
     driverId \<leftarrow> safeReadUInt8 b (offset + 1);
     networkId \<leftarrow> safeReadUInt8 b (offset + 2);
     teamId \<leftarrow> safeReadUInt8 b (offset + 3);
     myTeam \<leftarrow> safeReadUInt8 b (offset + 4);
     raceNumber \<leftarrow> safeReadUInt8 b (offset + 5);
     nationality \<leftarrow> safeReadUInt8 b (offset + 6);
     yourTelemetry \<leftarrow> safeReadUInt8 b (offset + 55);
     showOnlineNames \<leftarrow> safeReadUInt8 b (offset + 56);
     platform \<leftarrow> safeReadUInt8 b (offset + 57);
     Some (aiControlled = 1, teamId, raceNumber,
           or_else (Some (safeReadString L b (offset + 7) 48)) (''Driver '' @ dec (i + 1)))
   }"

definition setIdentity ::
  "(nat \<rightharpoonup> Driver) \<Rightarrow> nat \<Rightarrow> string \<Rightarrow> nat \<Rightarrow> nat \<Rightarrow> bool \<Rightarrow> bool \<Rightarrow> (nat \<rightharpoonup> Driver)" where
  "setIdentity ds i nm rn tid player ai =
     (case ds i of
        None \<Rightarrow> ds(i \<mapsto> \<lparr> name = nm, raceNumber = rn, teamId = tid, isPlayer = player,
                           isAI = ai, telemetry = None, lapData = None, carStatus = None \<rparr>)
      | Some d \<Rightarrow> ds(i \<mapsto> d\<lparr> name := nm, raceNumber := rn, teamId := tid,
                              isPlayer := player, isAI := ai \<rparr>))"

function participantsLoop ::
  "jslib \<Rightarrow> buffer \<Rightarrow> packet_header \<Rightarrow> nat \<Rightarrow> nat \<Rightarrow> int \<Rightarrow> (nat \<rightharpoonup> Driver)
   \<Rightarrow> (nat \<rightharpoonup> Driver) completion" where
  "participantsLoop L b h actualCars i offset ds =
     (if actualCars \<le> i then Returns ds
      else if int (length b) < offset + 58 then Returns ds
      else (case participantData L b i offset of
              None \<Rightarrow> Throws ds
            | Some (ai, tid, rn, nm) \<Rightarrow>
                participantsLoop L b h actualCars (i + 1) (offset + 58)
                  (setIdentity ds i nm rn tid (i = playerCarIndex h) ai)))"
  by pat_completeness auto
termination
  by (relation "measure (\<lambda>(L, b, h, actualCars, i, offset, ds). actualCars - i)") auto

definition parseParticipants :: "jslib \<Rightarrow> buffer \<Rightarrow> logger \<Rightarrow> logger completion" where
  "parseParticipants L b s =
     (case parseHeader b of
        None \<Rightarrow> Returns s
      | Some h \<Rightarrow>
          if length b < 1306 then
            Returns (s\<lparr> console := console s @
              [''Warning: Participants packet too small ('' @ dec (length b) @ '' bytes)''] \<rparr>)
          else (case safeReadUInt8 b 29 of
                  None \<Rightarrow> Throws s
                | Some numActiveCars \<Rightarrow>
                    map_completion (\<lambda>ds. s\<lparr> drivers := ds \<rparr>)
                      (participantsLoop L b h (min numActiveCars 22) 0 30 (drivers s))))"

subsection \<open>Session\<close>

definition sessionData :: "buffer \<Rightarrow> int \<Rightarrow> (nat \<times> int \<times> int \<times> nat \<times> nat \<times> int) option" where
  "sessionData b offset = do {
     weather \<leftarrow> safeReadUInt8 b offset;
     trackTemp \<leftarrow> readInt8 b (offset + 1);
     airTemp \<leftarrow> readInt8 b (offset + 2);
     totalLaps \<leftarrow> safeReadUInt8 b (offset + 3);
     trackLength \<leftarrow> safeReadUInt16LE b (offset + 4);
     sessionType \<leftarrow> safeReadUInt8 b (offset + 6);
     trackId \<leftarrow> readInt8 b (offset + 7);
     Some (weather, trackTemp, airTemp, totalLaps, sessionType, trackId)
   }"

definition parseSession :: "jslib \<Rightarrow> buffer \<Rightarrow> logger \<Rightarrow> logger completion" where
  "parseSession L b s =
     (case parseHeader b of
        None \<Rightarrow> Returns s
      | Some h \<Rightarrow>
          if length b < 644 then
            Returns (s\<lparr> console := console s @
              [''Warning: Session packet too small ('' @ dec (length b) @ '' bytes)''] \<rparr>)
          else (case sessionData b 29 of
                  None \<Rightarrow> Throws s
                | Some (w, ttemp, atemp, laps, st, tid) \<Rightarrow>
                    Returns (s\<lparr> sessionInfo := (sessionInfo s)
                      \<lparr> weather := getWeatherString (int w), trackTemp := ttemp, airTemp := atemp,
                        sessionType := getSessionTypeString (int st), totalLaps := laps,
                        trackId := Some tid \<rparr> \<rparr>)))"

subsection \<open>Car telemetry\<close>

text \<open>
  The reads of one \<open>CarTelemetryData\<close> record and the object built from them.
  \<open>Math.round\<close> of a quarter of a non-negative integer sum rounds halves up, which
  is \<open>(sum + 2) div 4\<close>.
\<close>

definition carTelemetryData :: "jslib \<Rightarrow> buffer \<Rightarrow> int \<Rightarrow> DriverTelemetry option" where
  "carTelemetryData L b offset = do {
     speed \<leftarrow> safeReadUInt16LE b offset;
     throttle \<leftarrow> safeReadFloatLE b (offset + 2);
     steer \<leftarrow> safeReadFloatLE b (offset + 6);
     brake \<leftarrow> safeReadFloatLE b (offset + 10);
     clutch \<leftarrow> safeReadUInt8 b (offset + 14);
     gear \<leftarrow> readInt8 b (offset + 15);
     engineRPM \<leftarrow> safeReadUInt16LE b (offset + 16);
     drs \<leftarrow> safeReadUInt8 b (offset + 18);
     bRL \<leftarrow> safeReadUInt16LE b (offset + 22);
     bRR \<leftarrow> safeReadUInt16LE b (offset + 24);
     bFL \<leftarrow> safeReadUInt16LE b (offset + 26);
     bFR \<leftarrow> safeReadUInt16LE b (offset + 28);
     tRL \<leftarrow> safeReadUInt8 b (offset + 30);
     tRR \<leftarrow> safeReadUInt8 b (offset + 31);
     tFL \<leftarrow> safeReadUInt8 b (offset + 32);
     tFR \<leftarrow> safeReadUInt8 b (offset + 33);
     engineTemp \<leftarrow> safeReadUInt16LE b (offset + 38);
     Some \<lparr> speed = speed, throttle = pct_fixed1 L throttle, brake = pct_fixed1 L brake,
            gear = (if gear = - 1 then Str ''R'' else if gear = 0 then Str ''N'' else Num gear),
            engineRPM = engineRPM, drs = (if drs = 1 then ''ON'' else ''OFF''),
            engineTemp = engineTemp,
            tyreTemp = (tRL + tRR + tFL + tFR + 2) div 4,
            brakeTemp = (bRL + bRR + bFL + bFR + 2) div 4 \<rparr>
   }"

function carTelemetryLoop ::
  "jslib \<Rightarrow> buffer \<Rightarrow> nat \<Rightarrow> int \<Rightarrow> (nat \<rightharpoonup> Driver) \<Rightarrow> (nat \<rightharpoonup> Driver) completion" where
  "carTelemetryLoop L b i offset ds =
     (if 22 \<le> i then Returns ds
      else if int (length b) < offset + 60 then Returns ds
      else (case carTelemetryData L b offset of
              None \<Rightarrow> Throws ds
            | Some t \<Rightarrow>
                carTelemetryLoop L b (i + 1) (offset + 60)
                  (case ds i of None \<Rightarrow> ds | Some d \<Rightarrow> ds(i \<mapsto> d\<lparr> telemetry := Some t \<rparr>))))"
  by pat_completeness auto
termination
  by (relation "measure (\<lambda>(L, b, i, offset, ds). 22 - i)") auto

definition parseCarTelemetry :: "jslib \<Rightarrow> buffer \<Rightarrow> logger \<Rightarrow> logger completion" where
  "parseCarTelemetry L b s =
     (case parseHeader b of
        None \<Rightarrow> Returns s
      | Some h \<Rightarrow>
          if length b < 1352 then Returns s
          else map_completion (\<lambda>ds. s\<lparr> drivers := ds \<rparr>)
                 (carTelemetryLoop L b 0 29 (drivers s)))"

subsection \<open>Lap data\<close>

definition lapDataRecord :: "buffer \<Rightarrow> int \<Rightarrow> DriverLapData option" where
  "lapDataRecord b offset = do {
     lastLapTimeMs \<leftarrow> readUInt32LE b offset;
     currentLapTimeMs \<leftarrow> readUInt32LE b (offset + 4);
     carPosition \<leftarrow> safeReadUInt8 b (offset + 32);
     currentLapNum \<leftarrow> safeReadUInt8 b (offset + 33);
     pitStatus \<leftarrow> safeReadUInt8 b (offset + 34);
     penalties \<leftarrow> safeReadUInt8 b (offset + 38);
     totalWarnings \<leftarrow> safeReadUInt8 b (offset + 39);
     driverStatus \<leftarrow> safeReadUInt8 b (offset + 44);
     Some \<lparr> position = carPosition, currentLap = currentLapNum,
            lastLapTime = formatTime lastLapTimeMs,
            currentLapTime = formatTime currentLapTimeMs,
            pitStatus = getPitStatusString (int pitStatus), penalties = penalties,
            warnings = totalWarnings,
            driverStatus = getDriverStatusString (int driverStatus) \<rparr>
   }"

function lapDataLoop ::
  "buffer \<Rightarrow> nat \<Rightarrow> int \<Rightarrow> (nat \<rightharpoonup> Driver) \<Rightarrow> (nat \<rightharpoonup> Driver) completion" where
  "lapDataLoop b i offset ds =
     (if 22 \<le> i then Returns ds
      else if int (length b) < offset + 50 then Returns ds
      else (case lapDataRecord b offset of
              None \<Rightarrow> Throws ds
            | Some l \<Rightarrow>
                lapDataLoop b (i + 1) (offset + 50)
                  (case ds i of None \<Rightarrow> ds | Some d \<Rightarrow> ds(i \<mapsto> d\<lparr> lapData := Some l \<rparr>))))"
  by pat_completeness auto
termination
  by (relation "measure (\<lambda>(b, i, offset, ds). 22 - i)") auto

definition parseLapData :: "jslib \<Rightarrow> buffer \<Rightarrow> logger \<Rightarrow> logger completion" where
  "parseLapData L b s =
     (case parseHeader b of
        None \<Rightarrow> Returns s
      | Some h \<Rightarrow>
          if length b < 1131 then Returns s
          else map_completion (\<lambda>ds. s\<lparr> drivers := ds \<rparr>) (lapDataLoop b 0 29 (drivers s)))"

subsection \<open>Car status\<close>

definition carStatusData :: "jslib \<Rightarrow> buffer \<Rightarrow> int \<Rightarrow> DriverCarStatus option" where
  "carStatusData L b offset = do {
     fuelInTank \<leftarrow> safeReadFloatLE b (offset + 5);
     fuelCapacity \<leftarrow> safeReadFloatLE b (offset + 9);
     fuelRemainingLaps \<leftarrow> safeReadFloatLE b (offset + 13);
     actualTyreCompound \<leftarrow> safeReadUInt8 b (offset + 25);
     tyresAgeLaps \<leftarrow> safeReadUInt8 b (offset + 27);
     vehicleFiaFlags \<leftarrow> readInt8 b (offset + 28);
     ersStoreEnergy \<leftarrow> safeReadFloatLE b (offset + 37);
     ersDeployMode \<leftarrow> safeReadUInt8 b (offset + 41);
     Some \<lparr> fuel = fixed L 2 fuelInTank, fuelLaps = fixed L 1 fuelRemainingLaps,
            tyreCompound = getTyreCompoundString (int actualTyreCompound),
            tyreAge = tyresAgeLaps, ersEnergy = ers_fixed1 L ersStoreEnergy,
            ersMode = getERSModeString (int ersDeployMode),
            flags = getFlagString vehicleFiaFlags \<rparr>
   }"

function carStatusLoop ::
  "jslib \<Rightarrow> buffer \<Rightarrow> nat \<Rightarrow> int \<Rightarrow> (nat \<rightharpoonup> Driver) \<Rightarrow> (nat \<rightharpoonup> Driver) completion" where
  "carStatusLoop L b i offset ds =
     (if 22 \<le> i then Returns ds
      else if int (length b) < offset + 55 then Returns ds
      else (case carStatusData L b offset of
              None \<Rightarrow> Throws ds
            | Some c \<Rightarrow>
                carStatusLoop L b (i + 1) (offset + 55)
                  (case ds i of None \<Rightarrow> ds | Some d \<Rightarrow> ds(i \<mapsto> d\<lparr> carStatus := Some c \<rparr>))))"
  by pat_completeness auto
termination
  by (relation "measure (\<lambda>(L, b, i, offset, ds). 22 - i)") auto

definition parseCarStatus :: "jslib \<Rightarrow> buffer \<Rightarrow> logger \<Rightarrow> logger completion" where
  "parseCarStatus L b s =
     (case parseHeader b of
        None \<Rightarrow> Returns s
      | Some h \<Rightarrow>
          if length b < 1239 then Returns s
          else map_completion (\<lambda>ds. s\<lparr> drivers := ds \<rparr>)
                 (carStatusLoop L b 0 29 (drivers s)))"

subsection \<open>The message handler\<close>

text \<open>
  The \<open>switch\<close> on \<open>header.packetId\<close>: Participants 4, Session 1, Lap Data 2,
  Car Telemetry 6, Car Status 7; any other id does nothing.
\<close>

definition dispatch :: "jslib \<Rightarrow> nat \<Rightarrow> buffer \<Rightarrow> logger \<Rightarrow> logger completion" where
  "dispatch L pid msg s =
     (if pid = 4 then parseParticipants L msg s
      else if pid = 1 then parseSession L msg s
      else if pid = 2 then parseLapData L msg s
      else if pid = 6 then parseCarTelemetry L msg s
      else if pid = 7 then parseCarStatus L msg s
      else Returns s)"

text \<open>
  \<open>server.on('message', ...)\<close>. The size comparison against \<open>PACKET_SIZES\<close> has an
  empty body and is left out. Nothing outside the inner \<open>try\<close> can throw, so the outer
  \<open>catch\<close> has no branch here.
\<close>

definition on_message :: "jslib \<Rightarrow> buffer \<Rightarrow> logger \<Rightarrow> logger" where
  "on_message L msg s0 =
     (let s = s0\<lparr> packetCount := packetCount s0 + 1 \<rparr> in
      if length msg < 29 then s\<lparr> errorCount := errorCount s + 1 \<rparr>
      else (case parseHeader msg of
              None \<Rightarrow> s\<lparr> errorCount := errorCount s + 1 \<rparr>
            | Some header \<Rightarrow>
                if packetFormat header \<noteq> 2025 \<and> packetFormat header \<noteq> 2024 then
                  s\<lparr> console := console s @
                       (if errorCount s < 5 then
                          [''Warning: Received packet format '' @ dec (packetFormat header)
                           @ '', expected 2025 for F1 25 or 2024 for F1 24'']
                        else []),
                     errorCount := errorCount s + 1 \<rparr>
                else (case dispatch L (packetId header) msg s of
                        Returns s' \<Rightarrow> s'
                      | Throws s' \<Rightarrow>
                          s'\<lparr> errorCount := errorCount s' + 1,
                              console := console s' @
                                (if errorCount s' + 1 < 10 then
                                   [''Parse error for packet '' @ dec (packetId header)
                                    @ '': '' @ error_message L]
                                 else []) \<rparr>)))"

subsection \<open>Concrete datagrams and states\<close>

text \<open>A library whose renderings are all empty, for closed examples.\<close>

definition nolib :: jslib where
  "nolib = \<lparr> utf8_clean = (\<lambda>b. []), pct_fixed1 = (\<lambda>x. []), fixed = (\<lambda>d x. []),
             ers_fixed1 = (\<lambda>x. []), error_message = [] \<rparr>"

text \<open>The state of the module when it is loaded.\<close>

definition freshLogger :: logger where
  "freshLogger =
     \<lparr> drivers = Map.empty,
       sessionInfo = \<lparr> trackName = [], sessionType = [], weather = [], trackTemp = 0,
                       airTemp = 0, totalLaps = 0, trackId = None \<rparr>,
       packetCount = 0, errorCount = 0, console = [] \<rparr>"

definition someDriver :: Driver where
  "someDriver = \<lparr> name = ''Driver 1'', raceNumber = 44, teamId = 0, isPlayer = True,
                   isAI = False, telemetry = None, lapData = None, carStatus = None \<rparr>"

text \<open>
  A header of format 2025 (\<open>0x07E9\<close>) with the given packet id, the other header
  bytes zero; 6 is Car Telemetry, 4 is Participants.
\<close>

definition header2025 :: "8 word \<Rightarrow> buffer" where
  "header2025 pid = [233, 7, 25, 1, 0, 1, pid] @ replicate 22 0"

definition telemetryHeader :: buffer where
  "telemetryHeader = header2025 6"


text \<open>
  The scenario datagram: 1352 bytes, speed 287 (\<open>0x011F\<close>, little-endian) at offset
  29 and gear 7 at offset 44, everything else zero.
\<close>

definition telemetryDatagram :: buffer where
  "telemetryDatagram =
     telemetryHeader @ [31, 1] @ replicate 13 0 @ [7] @ replicate 1307 0"

text \<open>The fresh state after a Participants packet has created slot 0.\<close>

definition loggerWithDriver :: logger where
  "loggerWithDriver = freshLogger\<lparr> drivers := [0 \<mapsto> someDriver] \<rparr>"

section \<open>The event service (\<open>F1UDPService\<close>)\<close>

definition PACKET_TYPES :: "nat \<rightharpoonup> string" where
  "PACKET_TYPES =
     map_of [(0, ''Motion''), (1, ''Session''), (2, ''LapData''), (3, ''Event''),
             (4, ''Participants''), (5, ''CarSetups''), (6, ''CarTelemetry''),
             (7, ''CarStatus''), (8, ''FinalClassification''), (9, ''LobbyInfo''),
             (10, ''CarDamage''), (11, ''SessionHistory''), (12, ''TyreSets''),
             (13, ''MotionEx''), (14, ''TimeTrial'')]"

text \<open>\<open>toLowerCase\<close> on the ASCII names of \<open>PACKET_TYPES\<close>.\<close>

definition toLowerCase :: "string \<Rightarrow> string" where
  "toLowerCase s =
     map (\<lambda>c. if 65 \<le> (of_char c :: nat) \<and> (of_char c :: nat) \<le> 90
                then char_of ((of_char c :: nat) + 32) else c) s"

type_synonym rinfo = "string \<times> nat"

record PacketData =
  packetType :: string
  buffer :: buffer
  rinfo :: rinfo
  timestamp :: int
  header :: packet_header

text \<open>
  What the service does to the outside: an event emitted to its listeners, or a
  datagram sent on the forwarding socket (to a port and an address).
\<close>

datatype payload = Text string | Invalid buffer rinfo | Data PacketData

datatype effect = Emit string payload | Send buffer nat string

record ServiceConfig =
  port :: nat
  address :: string
  bufferSize :: nat
  forwardingEnabled :: bool
  forwardingAddress :: string
  forwardingPort :: nat

record ServiceStats =
  packetsReceived :: nat
  bytesReceived :: nat
  sessionStartTime :: "int option"
  lastPacketTime :: "int option"
  packetsPerSecond :: nat
  packetCounts :: "string \<rightharpoonup> nat"

text \<open>\<open>forwardSocket\<close> holds whether the forwarding socket exists.\<close>

record service =
  config :: ServiceConfig
  forwardSocket :: bool
  isRunning :: bool
  stats :: ServiceStats
  packetRateCounter :: nat
  effects :: "effect list"

text \<open>
  \<open>_parsePacketHeader\<close>: the length test, the twelve reads and the \<open>catch\<close> are
  those of \<open>parseHeader\<close>; after the reads it emits a warning when the format is not
  2025, and returns the header all the same.
\<close>

definition parsePacketHeader :: "buffer \<Rightarrow> service \<Rightarrow> packet_header option \<times> service" where
  "parsePacketHeader b sv =
     (case parseHeader b of
        None \<Rightarrow> (None, sv)
      | Some h \<Rightarrow>
          (Some h,
           if packetFormat h \<noteq> 2025 then
             sv\<lparr> effects := effects sv @
               [Emit ''warning''
                  (Text (''Unexpected packet format: '' @ dec (packetFormat h)))] \<rparr>
           else sv))"

definition handleMessage :: "int \<Rightarrow> buffer \<Rightarrow> rinfo \<Rightarrow> service \<Rightarrow> service" where
  "handleMessage now msg ri sv0 =
     (let sv1 = sv0\<lparr> stats := (stats sv0)
                   \<lparr> packetsReceived := packetsReceived (stats sv0) + 1,
                     bytesReceived := bytesReceived (stats sv0) + length msg,
                     lastPacketTime := Some now \<rparr>,
                 packetRateCounter := packetRateCounter sv0 + 1 \<rparr>
      in case parsePacketHeader msg sv1 of
           (None, sv2) \<Rightarrow>
             sv2\<lparr> effects := effects sv2 @ [Emit ''invalidPacket'' (Invalid msg ri)] \<rparr>
         | (Some hdr, sv2) \<Rightarrow>
             (let packetTypeName = or_else (PACKET_TYPES (packetId hdr)) ''Unknown'';
                  sv3 = sv2\<lparr> stats := (stats sv2)
                    \<lparr> packetCounts := (packetCounts (stats sv2))
                        (packetTypeName \<mapsto>
                           (case packetCounts (stats sv2) packetTypeName of
                              None \<Rightarrow> 0 | Some c \<Rightarrow> c) + 1) \<rparr> \<rparr>;
                  packetData = \<lparr> packetType = packetTypeName, buffer = msg, rinfo = ri,
                                 timestamp = now, header = hdr \<rparr>;
                  sv4 = (if forwardingEnabled (config sv3) \<and> forwardSocket sv3 then
                           sv3\<lparr> effects := effects sv3 @
                             [Send msg (forwardingPort (config sv3))
                                (forwardingAddress (config sv3))] \<rparr>
                         else sv3)
              in sv4\<lparr> effects := effects sv4 @
                   [Emit ''packet'' (Data packetData),
                    Emit (''packet:'' @ toLowerCase packetTypeName) (Data packetData)] \<rparr>))"

text \<open>
  A full-length Participants datagram announcing one car, with the unsupported
  format 2023 (\<open>0x07E7\<close>).
\<close>

definition oldParticipants :: buffer where
  "oldParticipants = [231, 7, 23, 1, 0, 1, 4] @ replicate 22 0 @ [1] @ replicate 1276 0"

text \<open>A service as the constructor builds it with forwarding on, once started.\<close>

definition someService :: service where
  "someService =
     \<lparr> config = \<lparr> port = 20777, address = ''0.0.0.0'', bufferSize = 4194304,
                   forwardingEnabled = True, forwardingAddress = ''127.0.0.1'',
                   forwardingPort = 20778 \<rparr>,
       forwardSocket = True, isRunning = True,
       stats = \<lparr> packetsReceived = 0, bytesReceived = 0, sessionStartTime = Some 0,
                  lastPacketTime = None, packetsPerSecond = 0, packetCounts = Map.empty \<rparr>,
       packetRateCounter = 0, effects = [] \<rparr>"

section \<open>The capture recorder (\<open>f1-packages.js\<close>)\<close>

datatype RecordState = IDLE | RECORDING | PAUSED | FINISHED

text \<open>
  What the tool prints and schedules (\<open>console.log\<close> with decorations dropped, a call
  of \<open>updateDisplay\<close>, a \<open>setTimeout(updateDisplay, ms)\<close>), and what it asks of the
  file system. A write stream is known by the path it was opened on.
\<close>

datatype shown = Log string | UpdateDisplay | UpdateDisplayLater nat

datatype fs_op =
  CreateWriteStream string | StreamWrite string buffer | StreamEnd string
  | RenameSync string string | UnlinkSync string

record recorder =
  currentState :: RecordState
  writeStream :: "string option"
  currentTempFile :: "string option"
  packetCount_cap :: nat
  dataSize :: nat
  sessionStartTime_cap :: int
  lastPacketTime_cap :: int
  maxGap :: int
  droppedPackets :: nat
  packetStats :: "string \<rightharpoonup> nat"
  writeQueue :: "(buffer \<times> buffer) list"
  isWriting :: bool
  printed :: "shown list"
  fs :: "fs_op list"

definition tempDir :: string where
  "tempDir = ''temp_sessions''"

definition dataDir :: string where
  "dataDir = ''captured_data''"

text \<open>A rejected key press: the warning is printed and the display refreshed two seconds later.\<close>

definition warn :: "string \<Rightarrow> recorder \<Rightarrow> recorder" where
  "warn m r = r\<lparr> printed := printed r @ [Log m, UpdateDisplayLater 2000] \<rparr>"

definition endStream :: "recorder \<Rightarrow> recorder" where
  "endStream r =
     (case writeStream r of
        None \<Rightarrow> r
      | Some p \<Rightarrow> r\<lparr> fs := fs r @ [StreamEnd p] \<rparr>)"

text \<open>
  \<open>startNewRecording\<close>; \<open>ts\<close> is the text made from \<open>new Date()\<close> for the file
  name. Nothing in it throws: \<open>fs.createWriteStream\<close> opens the file later.
\<close>

definition startNewRecording :: "string \<Rightarrow> recorder \<Rightarrow> recorder completion" where
  "startNewRecording ts r =
     (if currentState r = RECORDING then
        Returns (warn ''Already recording! Press [F] to finish first.'' r)
      else
        (let r1 = endStream r;
             tmp = tempDir @ ''/temp_session_'' @ ts @ ''.bin''
         in Returns (r1\<lparr> packetCount_cap := 0, dataSize := 0, sessionStartTime_cap := 0,
                       lastPacketTime_cap := 0, maxGap := 0, droppedPackets := 0,
                       writeQueue := [], packetStats := Map.empty,
                       currentTempFile := Some tmp, writeStream := Some tmp,
                       fs := fs r1 @ [CreateWriteStream tmp],
                       currentState := RECORDING,
                       printed := printed r1 @
                         [UpdateDisplay, Log ''RECORDING STARTED!'',
                          Log ''Waiting for F1 25 telemetry data...''] \<rparr>)))"

text \<open>
  \<open>finishRecording\<close>. The state is set before the queue is flushed; a missing stream
  would make \<open>writeStream.write\<close> or \<open>writeStream.end\<close> throw a \<open>TypeError\<close> there.
\<close>

definition finishRecording :: "recorder \<Rightarrow> recorder completion" where
  "finishRecording r =
     (if currentState r \<noteq> RECORDING \<and> currentState r \<noteq> PAUSED then
        Returns (warn ''Not recording! Press [R] to start a new recording.'' r)
      else
        (let r1 = r\<lparr> currentState := FINISHED \<rparr> in
         case writeStream r1 of
           None \<Rightarrow> Throws r1
         | Some p \<Rightarrow>
             (let r2 = (if writeQueue r1 \<noteq> [] then
                          r1\<lparr> fs := fs r1 @
                            [StreamWrite p (concat (map (\<lambda>(metadata, data). metadata @ data)
                               (writeQueue r1)))] \<rparr>
                        else r1)
              in Returns (r2\<lparr> fs := fs r2 @ [StreamEnd p],
                            printed := printed r2 @
                              [UpdateDisplay, Log ''RECORDING FINISHED!'',
                               Log ''Press [S] to save or [D] to discard''] \<rparr>))))"

text \<open>
  \<open>saveRecording\<close>; \<open>renamed\<close> tells whether \<open>fs.renameSync\<close> succeeds. When it
  throws, nothing has been assigned yet.
\<close>

definition saveRecording :: "string \<Rightarrow> bool \<Rightarrow> recorder \<Rightarrow> recorder completion" where
  "saveRecording ts renamed r =
     (case currentTempFile r of
        None \<Rightarrow> Returns (warn ''No finished recording to save! Press [F] first.'' r)
      | Some tmp \<Rightarrow>
          if currentState r \<noteq> FINISHED then
            Returns (warn ''No finished recording to save! Press [F] first.'' r)
          else
            (let finalFile = dataDir @ ''/f1_session_'' @ ts @ ''.bin'' in
             if renamed then
               Returns (r\<lparr> fs := fs r @ [RenameSync tmp finalFile],
                           currentState := IDLE, currentTempFile := None,
                           writeStream := None,
                           printed := printed r @
                             [UpdateDisplay, Log ''RECORDING SAVED!'',
                              Log (''File: f1_session_'' @ ts @ ''.bin'')] \<rparr>)
             else Throws r))"

text \<open>
  \<open>discardRecording\<close>; \<open>present\<close> is the answer of \<open>fs.existsSync\<close> and \<open>unlinked\<close>
  tells whether \<open>fs.unlinkSync\<close> succeeds.
\<close>

definition discardRecording :: "bool \<Rightarrow> bool \<Rightarrow> recorder \<Rightarrow> recorder completion" where
  "discardRecording present unlinked r =
     (case currentTempFile r of
        None \<Rightarrow> Returns (warn ''No recording to discard!'' r)
      | Some tmp \<Rightarrow>
          (let r1 = endStream r in
           if present \<and> \<not> unlinked then Throws r1
           else
             (let r2 = (if present then r1\<lparr> fs := fs r1 @ [UnlinkSync tmp] \<rparr> else r1)
              in Returns (r2\<lparr> currentState := IDLE, currentTempFile := None,
                            writeStream := None,
                            printed := printed r2 @
                              [UpdateDisplay, Log ''RECORDING DISCARDED!'',
                               Log ''Press [R] to start a new recording''] \<rparr>))))"

definition togglePause :: "recorder \<Rightarrow> recorder completion" where
  "togglePause r =
     (if currentState r = RECORDING then
        Returns (r\<lparr> currentState := PAUSED,
                    printed := printed r @
                      [UpdateDisplay, Log ''RECORDING PAUSED'', Log ''Press [P] to resume''] \<rparr>)
      else if currentState r = PAUSED then
        Returns (r\<lparr> currentState := RECORDING,
                    printed := printed r @ [UpdateDisplay, Log ''RECORDING RESUMED''] \<rparr>)
      else Returns (warn ''Start a recording first with [R]!'' r))"

text \<open>The recorder when the tool starts, and one paused in the middle of a session.\<close>

definition idleRecorder :: recorder where
  "idleRecorder =
     \<lparr> currentState = IDLE, writeStream = None, currentTempFile = None,
       packetCount_cap = 0, dataSize = 0, sessionStartTime_cap = 0, lastPacketTime_cap = 0,
       maxGap = 0, droppedPackets = 0, packetStats = Map.empty, writeQueue = [],
       isWriting = False, printed = [], fs = [] \<rparr>"

definition pausedRecorder :: recorder where
  "pausedRecorder =
     idleRecorder\<lparr> currentState := PAUSED, writeStream := Some ''temp_sessions/a.bin'',
                    currentTempFile := Some ''temp_sessions/a.bin'', packetCount_cap := 3 \<rparr>"

definition finishedRecorder :: recorder where
  "finishedRecorder = pausedRecorder\<lparr> currentState := FINISHED \<rparr>"

section \<open>The replay tool (\<open>replay-data.js\<close>)\<close>

text \<open>
  The variables of \<open>startReplay\<close> that \<open>sendNextPacket\<close> changes. Timestamps are the
  integers stored in the file; \<open>Number(...)\<close> keeps them exact below \<open>2^53\<close>, which
  milliseconds since 1970 are. Delays are exact fractions.
\<close>

record replay =
  offset_rp :: nat
  packetCount_rp :: nat
  firstTimestamp :: "int option"

text \<open>How the next call of \<open>sendNextPacket\<close> is scheduled: \<open>setImmediate\<close> or \<open>setTimeout\<close>.\<close>

datatype schedule = Immediate | Timeout rat

text \<open>
  One call of \<open>sendNextPacket\<close>: the replay is complete (\<open>process.exit(0)\<close>), or a
  read of the frame's metadata throws and nothing catches it, or the datagram handed
  to \<open>client.send\<close> cannot be sent and the callback of \<open>send\<close> prints
  \<open>Send error\<close>, closes the socket and leaves with \<open>process.exit(1)\<close>, or the
  datagram is sent and the next call is scheduled.
\<close>

datatype step = Complete | Crash | SendError buffer | Sent buffer schedule replay

definition replayDelay :: "int \<Rightarrow> int \<Rightarrow> nat \<Rightarrow> rat" where
  "replayDelay ts first speedMul = of_int (ts - first) / of_nat speedMul"

text \<open>
  \<open>sendable\<close> is the verdict of the socket on a datagram: whether \<open>client.send\<close>
  calls back without an error. The callback of a failed send runs before the next
  scheduled call, so the exit ends the run at this frame.
\<close>

definition sendNextPacket ::
  "(buffer \<Rightarrow> bool) \<Rightarrow> buffer \<Rightarrow> nat \<Rightarrow> int \<Rightarrow> int \<Rightarrow> replay \<Rightarrow> step" where
  "sendNextPacket sendable fileBuffer speedMul replayStartTime now r =
     (if length fileBuffer \<le> offset_rp r then Complete
      else
        (case readUInt32LE fileBuffer (int (offset_rp r)) of
           None \<Rightarrow> Crash
         | Some packetSize \<Rightarrow>
             (case readBigUInt64LE fileBuffer (int (offset_rp r) + 4) of
                None \<Rightarrow> Crash
              | Some ts \<Rightarrow>
                  (let start = offset_rp r + 12;
                       packetData = slice fileBuffer start (start + packetSize);
                       r1 = r\<lparr> offset_rp := start + packetSize,
                               packetCount_rp := packetCount_rp r + 1 \<rparr>
                   in if sendable packetData then
                        (case firstTimestamp r of
                           None \<Rightarrow>
                             Sent packetData Immediate (r1\<lparr> firstTimestamp := Some (int ts) \<rparr>)
                         | Some first \<Rightarrow>
                             (let waitTime = of_int replayStartTime
                                    + replayDelay (int ts) first speedMul - of_int now
                              in Sent packetData
                                   (if 0 < waitTime then Timeout waitTime else Immediate) r1))
                      else SendError packetData))))"

text \<open>
  A whole replay: the calls follow one another as scheduled; the list holds the
  reading of \<open>Date.now()\<close> for each call. Each datagram sent is listed with the way the
  call that sent it had been scheduled; the first call is made directly. The run ends
  complete (exit 0), crashed on an uncaught exception, failed on a send error
  (exit 1), or still pending when the list of readings is used up.
\<close>

datatype ending = Completed | Crashed | SendFailed | Pending

fun replayRun ::
  "(buffer \<Rightarrow> bool) \<Rightarrow> buffer \<Rightarrow> nat \<Rightarrow> int \<Rightarrow> schedule \<Rightarrow> replay \<Rightarrow> int list
   \<Rightarrow> (buffer \<times> schedule) list \<times> ending" where
  "replayRun sendable f speedMul start how r [] = ([], Pending)"
| "replayRun sendable f speedMul start how r (now # nows) =
     (case sendNextPacket sendable f speedMul start now r of
        Complete \<Rightarrow> ([], Completed)
      | Crash \<Rightarrow> ([], Crashed)
      | SendError p \<Rightarrow> ([], SendFailed)
      | Sent p sch r' \<Rightarrow>
          (let (sends, e) = replayRun sendable f speedMul start sch r' nows
           in ((p, how) # sends, e)))"

definition initialReplay :: replay where
  "initialReplay = \<lparr> offset_rp = 0, packetCount_rp = 0, firstTimestamp = None \<rparr>"

definition startReplay ::
  "(buffer \<Rightarrow> bool) \<Rightarrow> buffer \<Rightarrow> nat \<Rightarrow> int \<Rightarrow> int list
   \<Rightarrow> (buffer \<times> schedule) list \<times> ending" where
  "startReplay sendable f speedMul start nows =
     replayRun sendable f speedMul start Immediate initialReplay nows"

text \<open>
  The verdict of a UDP socket over IPv4: a datagram of more than 65507 bytes is
  refused.
\<close>

definition udpSendable :: "buffer \<Rightarrow> bool" where
  "udpSendable p = (length p \<le> 65507)"

text \<open>One capture frame: u32 length, u64 timestamp, payload.\<close>

definition frame :: "nat \<Rightarrow> nat \<Rightarrow> buffer \<Rightarrow> buffer" where
  "frame len ts payload = le_bytes 4 len @ le_bytes 8 ts @ payload"

text \<open>
  Three one-byte frames recorded one second apart; a file whose only frame announces
  five bytes of payload and has two; and a file whose only frame announces 70000
  bytes and has 65508, more than one datagram can carry.
\<close>

definition threeFrames :: buffer where
  "threeFrames = frame 1 1000 [170] @ frame 1 2000 [187] @ frame 1 3000 [204]"

definition truncatedFile :: buffer where
  "truncatedFile = frame 5 1000 [1, 2]"

definition oversizedFile :: buffer where
  "oversizedFile = frame 70000 1000 (replicate 65508 0)"

section \<open>Facts about the readers\<close>

declare dec.simps [simp del]

lemma le_bytes_le_nat: "le_bytes (length bs) (le_nat bs) = bs"
proof (induction bs)
  case Nil
  show ?case by simp
next
  case (Cons x xs)
  have lt: "unat x < 256" using unsigned_less [of x, where ?'a = nat] by simp
  have m: "(unat x + 256 * le_nat xs) mod 256 = unat x" using lt by simp
  have d: "(unat x + 256 * le_nat xs) div 256 = le_nat xs" using lt by simp
  have w: "(of_nat (unat x) :: 8 word) = x" by simp
  show ?case using Cons.IH w by (simp only: le_nat.simps le_bytes.simps length_Cons m d)
qed

lemma le_bytes_take:
  "off + n \<le> length b \<Longrightarrow> le_bytes n (le_nat (take n (drop off b))) = take n (drop off b)"
  using le_bytes_le_nat [of "take n (drop off b)"] by simp

lemma le_bytes_take0: "n \<le> length b \<Longrightarrow> le_bytes n (le_nat (take n b)) = take n b"
  using le_bytes_take [of 0 n b] by simp

lemma le_bytes_nth:
  "off < length b \<Longrightarrow> le_bytes (Suc 0) (unat (b ! off)) = take (Suc 0) (drop off b)"
proof -
  assume a: "off < length b"
  have "take (Suc 0) (drop off b) = [b ! off]"
    using a by (simp add: take_Suc_conv_app_nth)
  moreover have "le_bytes (Suc 0) (unat (b ! off)) = [b ! off]"
    using unsigned_less [of "b ! off", where ?'a = nat] by simp
  ultimately show ?thesis by simp
qed

lemma le_bytes_numeral:
  "le_bytes (numeral k) n = of_nat (n mod 256) # le_bytes (pred_numeral k) (n div 256)"
  by (simp only: numeral_eq_Suc [of k] le_bytes.simps)

lemma take_drop_join:
  "take a (drop off b) @ take c (drop (off + a) b) = take (a + c) (drop off b)"
  by (simp add: take_add add.commute)

section \<open>The header decoder\<close>

lemma parseHeader_Some:
  assumes "29 \<le> length b"
  shows "parseHeader b = Some \<lparr> packetFormat = le_nat (take 2 b),
     gameYear = unat (b ! 2), gameMajorVersion = unat (b ! 3),
     gameMinorVersion = unat (b ! 4), packetVersion = unat (b ! 5), packetId = unat (b ! 6),
     sessionUID = le_nat (take 8 (drop 7 b)),
     sessionTime = f32_of_bits (sessionTimeBits b),
     frameIdentifier = le_nat (take 4 (drop 19 b)),
     overallFrameIdentifier = le_nat (take 4 (drop 23 b)),
     playerCarIndex = unat (b ! 27), secondaryPlayerCarIndex = unat (b ! 28) \<rparr>"
  using assms
  by (simp add: parseHeader_def readUInt8_def readUIntLE_def readFloatLE_def
      in_range_def sessionTimeBits_def)

lemma take29:
  "take 29 b = take 2 b @ take (Suc 0) (drop 2 b) @ take (Suc 0) (drop 3 b)
     @ take (Suc 0) (drop 4 b) @ take (Suc 0) (drop 5 b) @ take (Suc 0) (drop 6 b)
     @ take 8 (drop 7 b) @ take 4 (drop 15 b) @ take 4 (drop 19 b) @ take 4 (drop 23 b)
     @ take (Suc 0) (drop 27 b) @ take (Suc 0) (drop 28 b)"
proof -
  have j: "\<And>a c off. take a (drop off b) @ take c (drop (off + a) b) = take (a + c) (drop off b)"
    by (rule take_drop_join)
  have "take (Suc 0) (drop 27 b) @ take (Suc 0) (drop 28 b) = take 2 (drop 27 b)"
    using j [of "Suc 0" 27 "Suc 0"] by (simp add: numeral_2_eq_2)
  moreover have "take 4 (drop 23 b) @ take 2 (drop 27 b) = take 6 (drop 23 b)"
    using j [of 4 23 2] by simp
  moreover have "take 4 (drop 19 b) @ take 6 (drop 23 b) = take 10 (drop 19 b)"
    using j [of 4 19 6] by simp
  moreover have "take 4 (drop 15 b) @ take 10 (drop 19 b) = take 14 (drop 15 b)"
    using j [of 4 15 10] by simp
  moreover have "take 8 (drop 7 b) @ take 14 (drop 15 b) = take 22 (drop 7 b)"
    using j [of 8 7 14] by simp
  moreover have "take (Suc 0) (drop 6 b) @ take 22 (drop 7 b) = take 23 (drop 6 b)"
    using j [of "Suc 0" 6 22] by simp
  moreover have "take (Suc 0) (drop 5 b) @ take 23 (drop 6 b) = take 24 (drop 5 b)"
    using j [of "Suc 0" 5 23] by simp
  moreover have "take (Suc 0) (drop 4 b) @ take 24 (drop 5 b) = take 25 (drop 4 b)"
    using j [of "Suc 0" 4 24] by simp
  moreover have "take (Suc 0) (drop 3 b) @ take 25 (drop 4 b) = take 26 (drop 3 b)"
    using j [of "Suc 0" 3 25] by simp
  moreover have "take (Suc 0) (drop 2 b) @ take 26 (drop 3 b) = take 27 (drop 2 b)"
    using j [of "Suc 0" 2 26] by simp
  moreover have "take 2 b @ take 27 (drop 2 b) = take 29 b"
    using take_add [of 2 27 b] by simp
  ultimately show ?thesis by simp
qed

lemma f32_bits_of_bits: "f32_of_bits n \<noteq> NaN \<Longrightarrow> f32_bits (f32_of_bits n) = n"
  by (auto simp: f32_bits_def f32_of_bits_def split: if_splits)

lemma parseHeader_snan:
  "parseHeader (nanHeader 1 128) =
     Some \<lparr> packetFormat = 0, gameYear = 0, gameMajorVersion = 0,
            gameMinorVersion = 0, packetVersion = 0, packetId = 0,
            sessionUID = 0, sessionTime = NaN, frameIdentifier = 0,
            overallFrameIdentifier = 0, playerCarIndex = 0,
            secondaryPlayerCarIndex = 0 \<rparr>"
  by (simp add: parseHeader_def nanHeader_def readUInt8_def readUIntLE_def readFloatLE_def
      in_range_def f32_of_bits_def)

lemma parseHeader_qnan: "parseHeader (nanHeader 0 192) = parseHeader (nanHeader 1 128)"
  by (simp add: parseHeader_def nanHeader_def readUInt8_def readUIntLE_def readFloatLE_def
      in_range_def f32_of_bits_def)

lemma encodeHeader_snan: "encodeHeader (the (parseHeader (nanHeader 1 128))) = nanHeader 0 192"
  unfolding parseHeader_snan
  by (simp add: nanHeader_def encodeHeader_def f32_bits_def le_bytes_numeral)

text \<open>
  C10 (as amended). For every datagram of at least 29 bytes whose session-time bytes
  are not a NaN pattern, the header decodes, and writing the twelve decoded fields
  back at their fixed little-endian offsets gives the first 29 bytes of the datagram
  again.
\<close>

theorem header_roundtrip:
  assumes len: "29 \<le> length b" and num: "f32_of_bits (sessionTimeBits b) \<noteq> NaN"
  shows "\<exists>h. parseHeader b = Some h \<and> encodeHeader h = take 29 b"
proof -
  let ?h = "the (parseHeader b)"
  have st: "f32_bits (f32_of_bits (sessionTimeBits b)) = le_nat (take 4 (drop 15 b))"
    using num by (simp add: f32_bits_of_bits sessionTimeBits_def)
  have "encodeHeader ?h = take 29 b"
    unfolding take29 using len
    by (simp only: parseHeader_Some [OF len] option.sel encodeHeader_def packet_header.simps st)
       (simp add: le_bytes_take le_bytes_nth le_bytes_take0 del: le_bytes.simps)
  then show ?thesis using parseHeader_Some [OF len] by simp
qed

theorem header_roundtrip_witness:
  "29 \<le> length (nanHeader 0 0) \<and> f32_of_bits (sessionTimeBits (nanHeader 0 0)) \<noteq> NaN
   \<and> (\<exists>h. parseHeader (nanHeader 0 0) = Some h
        \<and> encodeHeader h = take 29 (nanHeader 0 0))"
proof -
  have l: "29 \<le> length (nanHeader 0 0)" by (simp add: nanHeader_def)
  have n: "f32_of_bits (sessionTimeBits (nanHeader 0 0)) \<noteq> NaN"
    by (simp add: nanHeader_def sessionTimeBits_def f32_of_bits_def)
  show ?thesis using l n header_roundtrip [OF l n] by simp
qed

text \<open>
  The claim as stated fails where the session time is a NaN: the header with the
  signalling NaN \<open>0x7F800001\<close> and the one with the quiet NaN \<open>0x7FC00000\<close> are
  different byte strings with the same twelve decoded fields, so no encoder can give
  both back, and the one above gives back the second for the first.
\<close>

theorem header_roundtrip_counterexample:
  "nanHeader 1 128 \<noteq> nanHeader 0 192
   \<and> parseHeader (nanHeader 1 128) = parseHeader (nanHeader 0 192)
   \<and> parseHeader (nanHeader 1 128) \<noteq> None
   \<and> encodeHeader (the (parseHeader (nanHeader 1 128))) \<noteq> nanHeader 1 128"
proof -
  have d: "nanHeader 1 128 \<noteq> nanHeader 0 192" by (simp add: nanHeader_def)
  have e: "encodeHeader (the (parseHeader (nanHeader 1 128))) \<noteq> nanHeader 1 128"
    using encodeHeader_snan d by simp
  show ?thesis using d e parseHeader_qnan parseHeader_snan by simp
qed

section \<open>The body decoders of the telemetry logger\<close>

declare carTelemetryLoop.simps [simp del] lapDataLoop.simps [simp del]
  carStatusLoop.simps [simp del] participantsLoop.simps [simp del]

lemma safeReadUInt8_eq:
  "safeReadUInt8 b off = Some (if off < 0 \<or> int (length b) \<le> off then 0 else unat (b ! nat off))"
  by (simp add: safeReadUInt8_def readUInt8_def in_range_def)

lemma safeReadUInt16LE_eq:
  "safeReadUInt16LE b off =
     Some (if off < 0 \<or> int (length b) \<le> off + 1 then 0 else le_nat (take 2 (drop (nat off) b)))"
  by (simp add: safeReadUInt16LE_def readUIntLE_def in_range_def)

lemma safeReadFloatLE_eq:
  "safeReadFloatLE b off =
     Some (if off < 0 \<or> int (length b) \<le> off + 3 then F32 0
           else f32_of_bits (le_nat (take 4 (drop (nat off) b))))"
  by (simp add: safeReadFloatLE_def readFloatLE_def readUIntLE_def in_range_def)

lemma readInt8_in: "0 \<le> off \<Longrightarrow> off < int (length b) \<Longrightarrow> readInt8 b off = Some (sint (b ! nat off))"
  by (simp add: readInt8_def in_range_def)

lemma readUIntLE_in:
  "0 \<le> off \<Longrightarrow> off + int n \<le> int (length b) \<Longrightarrow> readUIntLE n b off = Some (le_nat (take n (drop (nat off) b)))"
  by (simp add: readUIntLE_def in_range_def)

lemma carTelemetryData_Some:
  assumes "0 \<le> offset" "offset + 60 \<le> int (length b)"
  shows "\<exists>t. carTelemetryData L b offset = Some t"
  using assms
  by (simp add: carTelemetryData_def safeReadUInt8_eq safeReadUInt16LE_eq safeReadFloatLE_eq readInt8_in)

lemma carTelemetryLoop_Returns:
  "0 \<le> offset \<Longrightarrow> \<exists>ds'. carTelemetryLoop L b i offset ds = Returns ds'"
proof (induction L b i offset ds rule: carTelemetryLoop.induct)
  case (1 L b i offset ds)
  show ?case
  proof (cases "22 \<le> i \<or> int (length b) < offset + 60")
    case True
    then show ?thesis by (auto simp: carTelemetryLoop.simps [of L b i offset ds])
  next
    case False
    then obtain t where t: "carTelemetryData L b offset = Some t"
      using carTelemetryData_Some [of offset b L] "1.prems" by auto
    have "\<exists>ds'. carTelemetryLoop L b (i + 1) (offset + 60)
            (case ds i of None \<Rightarrow> ds | Some d \<Rightarrow> ds(i \<mapsto> d\<lparr>telemetry := Some t\<rparr>)) = Returns ds'"
      using "1.IH" [of t] False t "1.prems" by simp
    then show ?thesis using False t by (simp add: carTelemetryLoop.simps [of L b i offset ds])
  qed
qed


lemma carTelemetryLoop_absent:
  "ds j = None \<Longrightarrow> state_of (carTelemetryLoop L b i offset ds) j = None"
proof (induction L b i offset ds rule: carTelemetryLoop.induct)
  case (1 L b i offset ds)
  show ?case
  proof (cases "22 \<le> i \<or> int (length b) < offset + 60")
    case True
    then show ?thesis using "1.prems" by (auto simp: carTelemetryLoop.simps [of L b i offset ds])
  next
    case False
    show ?thesis
    proof (cases "carTelemetryData L b offset")
      case None
      then show ?thesis using False "1.prems" by (simp add: carTelemetryLoop.simps [of L b i offset ds])
    next
      case (Some t)
      let ?ds = "case ds i of None \<Rightarrow> ds | Some d \<Rightarrow> ds(i \<mapsto> d\<lparr>telemetry := Some t\<rparr>)"
      have "?ds j = None" using "1.prems" by (cases "ds i") auto
      then have "state_of (carTelemetryLoop L b (i + 1) (offset + 60) ?ds) j = None"
        using "1.IH" [of t] False Some by simp
      then show ?thesis using False Some by (simp add: carTelemetryLoop.simps [of L b i offset ds])
    qed
  qed
qed



lemma carTelemetryLoop_below:
  "j < i \<Longrightarrow> state_of (carTelemetryLoop L b i offset ds) j = ds j"
proof (induction L b i offset ds rule: carTelemetryLoop.induct)
  case (1 L b i offset ds)
  show ?case
  proof (cases "22 \<le> i \<or> int (length b) < offset + 60")
    case True
    then show ?thesis by (auto simp: carTelemetryLoop.simps [of L b i offset ds])
  next
    case False
    show ?thesis
    proof (cases "carTelemetryData L b offset")
      case None
      then show ?thesis using False by (simp add: carTelemetryLoop.simps [of L b i offset ds])
    next
      case (Some t)
      let ?ds = "case ds i of None \<Rightarrow> ds | Some d \<Rightarrow> ds(i \<mapsto> d\<lparr>telemetry := Some t\<rparr>)"
      have "?ds j = ds j" using "1.prems" by (cases "ds i") auto
      moreover have "state_of (carTelemetryLoop L b (i + 1) (offset + 60) ?ds) j = ?ds j"
        using "1.IH" [of t] False Some "1.prems" by simp
      ultimately show ?thesis using False Some
        by (simp add: carTelemetryLoop.simps [of L b i offset ds])
    qed
  qed
qed

lemma carTelemetryLoop_first:
  assumes len: "89 \<le> length b" and d: "ds 0 = Some d" and t: "carTelemetryData L b 29 = Some t"
  shows "state_of (carTelemetryLoop L b 0 29 ds) 0 = Some (d\<lparr>telemetry := Some t\<rparr>)"
proof -
  have "carTelemetryLoop L b 0 29 ds = carTelemetryLoop L b 1 89 (ds(0 \<mapsto> d\<lparr>telemetry := Some t\<rparr>))"
    using len d t by (simp add: carTelemetryLoop.simps [of L b 0 29 ds])
  then show ?thesis using carTelemetryLoop_below [of 0 1 L b 89 "ds(0 \<mapsto> d\<lparr>telemetry := Some t\<rparr>)"]
    by simp
qed

lemma lapDataRecord_Some:
  assumes "0 \<le> offset" "offset + 50 \<le> int (length b)"
  shows "\<exists>t. lapDataRecord b offset = Some t"
  using assms
  by (simp add: lapDataRecord_def safeReadUInt8_eq readUIntLE_in)

lemma carStatusData_Some:
  assumes "0 \<le> offset" "offset + 55 \<le> int (length b)"
  shows "\<exists>t. carStatusData L b offset = Some t"
  using assms
  by (simp add: carStatusData_def safeReadUInt8_eq safeReadFloatLE_eq readInt8_in)

lemma lapDataLoop_Returns:
  "0 \<le> offset \<Longrightarrow> \<exists>ds'. lapDataLoop b i offset ds = Returns ds'"
proof (induction b i offset ds rule: lapDataLoop.induct)
  case (1 b i offset ds)
  show ?case
  proof (cases "22 \<le> i \<or> int (length b) < offset + 50")
    case True
    then show ?thesis by (auto simp: lapDataLoop.simps [of b i offset ds])
  next
    case False
    then obtain t where t: "lapDataRecord b offset = Some t"
      using lapDataRecord_Some [of offset b] "1.prems" by auto
    have "\<exists>ds'. lapDataLoop b (i + 1) (offset + 50)
            (case ds i of None \<Rightarrow> ds | Some d \<Rightarrow> ds(i \<mapsto> d\<lparr>lapData := Some t\<rparr>)) = Returns ds'"
      using "1.IH" [of t] False t "1.prems" by simp
    then show ?thesis using False t by (simp add: lapDataLoop.simps [of b i offset ds])
  qed
qed




lemma carStatusLoop_Returns:
  "0 \<le> offset \<Longrightarrow> \<exists>ds'. carStatusLoop L b i offset ds = Returns ds'"
proof (induction L b i offset ds rule: carStatusLoop.induct)
  case (1 L b i offset ds)
  show ?case
  proof (cases "22 \<le> i \<or> int (length b) < offset + 55")
    case True
    then show ?thesis by (auto simp: carStatusLoop.simps [of L b i offset ds])
  next
    case False
    then obtain t where t: "carStatusData L b offset = Some t"
      using carStatusData_Some [of offset b L] "1.prems" by auto
    have "\<exists>ds'. carStatusLoop L b (i + 1) (offset + 55)
            (case ds i of None \<Rightarrow> ds | Some d \<Rightarrow> ds(i \<mapsto> d\<lparr>carStatus := Some t\<rparr>)) = Returns ds'"
      using "1.IH" [of t] False t "1.prems" by simp
    then show ?thesis using False t by (simp add: carStatusLoop.simps [of L b i offset ds])
  qed
qed




lemma participantData_Some: "\<exists>t. participantData L b i offset = Some t"
  by (simp add: participantData_def safeReadUInt8_eq)

lemma sessionData_Some:
  assumes "0 \<le> offset" "offset + 8 \<le> int (length b)"
  shows "\<exists>t. sessionData b offset = Some t"
  using assms
  by (simp add: sessionData_def safeReadUInt8_eq safeReadUInt16LE_eq readInt8_in)

lemma setIdentity_dom: "dom (setIdentity ds i nm rn tid pl ai) = insert i (dom ds)"
  by (cases "ds i") (auto simp: setIdentity_def)

lemma participantsLoop_Returns:
  "\<exists>ds'. participantsLoop L b h n i offset ds = Returns ds'"
proof (induction L b h n i offset ds rule: participantsLoop.induct)
  case (1 L b h n i offset ds)
  show ?case
  proof (cases "n \<le> i \<or> int (length b) < offset + 58")
    case True
    then show ?thesis by (auto simp: participantsLoop.simps [of L b h n i offset ds])
  next
    case False
    obtain ai tid rn nm where t: "participantData L b i offset = Some (ai, tid, rn, nm)"
      using participantData_Some [of L b i offset] by (metis prod_cases4)
    have "\<exists>ds'. participantsLoop L b h n (i + 1) (offset + 58)
            (setIdentity ds i nm rn tid (i = playerCarIndex h) ai) = Returns ds'"
      using "1.IH" [of "(ai, tid, rn, nm)" ai "(tid, rn, nm)" tid "(rn, nm)" rn nm] False t by simp
    then show ?thesis using False t by (simp add: participantsLoop.simps [of L b h n i offset ds])
  qed
qed

lemma participantsLoop_dom:
  "dom ds \<subseteq> dom (state_of (participantsLoop L b h n i offset ds))"
proof (induction L b h n i offset ds rule: participantsLoop.induct)
  case (1 L b h n i offset ds)
  show ?case
  proof (cases "n \<le> i \<or> int (length b) < offset + 58")
    case True
    then show ?thesis by (auto simp: participantsLoop.simps [of L b h n i offset ds])
  next
    case False
    obtain ai tid rn nm where t: "participantData L b i offset = Some (ai, tid, rn, nm)"
      using participantData_Some [of L b i offset] by (metis prod_cases4)
    let ?ds = "setIdentity ds i nm rn tid (i = playerCarIndex h) ai"
    have "dom ?ds \<subseteq> dom (state_of (participantsLoop L b h n (i + 1) (offset + 58) ?ds))"
      using "1.IH" [of "(ai, tid, rn, nm)" ai "(tid, rn, nm)" tid "(rn, nm)" rn nm] False t by simp
    moreover have "dom ds \<subseteq> dom ?ds" by (auto simp: setIdentity_dom)
    ultimately show ?thesis using False t
      by (simp add: participantsLoop.simps [of L b h n i offset ds])
  qed
qed

lemma participantsLoop_creates:
  assumes "0 < n" "offset + 58 \<le> int (length b)"
  shows "0 \<in> dom (state_of (participantsLoop L b h n 0 offset ds))"
proof -
  obtain ai tid rn nm where t: "participantData L b 0 offset = Some (ai, tid, rn, nm)"
    using participantData_Some [of L b 0 offset] by (metis prod_cases4)
  let ?ds = "setIdentity ds 0 nm rn tid (0 = playerCarIndex h) ai"
  have "participantsLoop L b h n 0 offset ds = participantsLoop L b h n 1 (offset + 58) ?ds"
    using assms t by (simp add: participantsLoop.simps [of L b h n 0 offset ds])
  moreover have "0 \<in> dom ?ds" by (simp add: setIdentity_dom)
  ultimately show ?thesis using participantsLoop_dom [of ?ds L b h n 1 "offset + 58"] by auto
qed

subsection \<open>The five decoders return\<close>

lemma parseCarTelemetry_Returns: "\<exists>s'. parseCarTelemetry L b s = Returns s'"
proof -
  obtain ds' where "carTelemetryLoop L b 0 29 (drivers s) = Returns ds'"
    using carTelemetryLoop_Returns [of 29 L b 0 "drivers s"] by auto
  then show ?thesis by (simp add: parseCarTelemetry_def split: option.split)
qed

lemma parseLapData_Returns: "\<exists>s'. parseLapData L b s = Returns s'"
proof -
  obtain ds' where "lapDataLoop b 0 29 (drivers s) = Returns ds'"
    using lapDataLoop_Returns [of 29 b 0 "drivers s"] by auto
  then show ?thesis by (simp add: parseLapData_def split: option.split)
qed

lemma parseCarStatus_Returns: "\<exists>s'. parseCarStatus L b s = Returns s'"
proof -
  obtain ds' where "carStatusLoop L b 0 29 (drivers s) = Returns ds'"
    using carStatusLoop_Returns [of 29 L b 0 "drivers s"] by auto
  then show ?thesis by (simp add: parseCarStatus_def split: option.split)
qed

lemma parseParticipants_Returns: "\<exists>s'. parseParticipants L b s = Returns s'"
proof -
  obtain n where n: "safeReadUInt8 b 29 = Some n" by (simp add: safeReadUInt8_eq)
  obtain ds' where "participantsLoop L b (the (parseHeader b)) (min n 22) 0 30 (drivers s) = Returns ds'"
    using participantsLoop_Returns by blast
  then show ?thesis using n by (auto simp: parseParticipants_def split: option.split)
qed

lemma parseSession_Returns: "\<exists>s'. parseSession L b s = Returns s'"
proof (cases "length b < 644")
  case True
  then show ?thesis by (simp add: parseSession_def split: option.split)
next
  case False
  then obtain t where "sessionData b 29 = Some t"
    using sessionData_Some [of 29 b] by auto
  then show ?thesis using False
    by (auto simp: parseSession_def split: option.split prod.split)
qed

lemma dispatch_Returns: "\<exists>s'. dispatch L pid b s = Returns s'"
  using parseCarTelemetry_Returns parseLapData_Returns parseCarStatus_Returns
    parseParticipants_Returns parseSession_Returns
  by (simp add: dispatch_def)

subsection \<open>What each decoder may change\<close>

lemma parseCarTelemetry_drivers:
  "drivers (state_of (parseCarTelemetry L b s)) =
     (if parseHeader b = None \<or> length b < 1352 then drivers s
      else state_of (carTelemetryLoop L b 0 29 (drivers s)))"
  by (cases "carTelemetryLoop L b 0 29 (drivers s)")
     (auto simp: parseCarTelemetry_def split: option.split)









subsection \<open>The message handler\<close>

lemma parseHeader_None_iff: "parseHeader b = None \<longleftrightarrow> length b < 29"
proof (cases "length b < 29")
  case True
  then show ?thesis by (simp add: parseHeader_def)
next
  case False
  then show ?thesis using parseHeader_Some [of b] by simp
qed

lemma on_message_supported:
  assumes "parseHeader b = Some h" "packetFormat h = 2025 \<or> packetFormat h = 2024"
    "dispatch L (packetId h) b (s\<lparr>packetCount := packetCount s + 1\<rparr>) = Returns s'"
  shows "on_message L b s = s'"
proof -
  have "\<not> length b < 29" using assms(1) parseHeader_None_iff [of b] by auto
  then show ?thesis using assms by (auto simp: on_message_def Let_def)
qed

lemma on_message_unsupported:
  assumes "parseHeader b = Some h" "packetFormat h \<noteq> 2025" "packetFormat h \<noteq> 2024"
  shows "on_message L b s =
     s\<lparr> packetCount := packetCount s + 1,
        console := console s @
          (if errorCount s < 5 then
             [''Warning: Received packet format '' @ dec (packetFormat h)
              @ '', expected 2025 for F1 25 or 2024 for F1 24'']
           else []),
        errorCount := errorCount s + 1 \<rparr>"
proof -
  have "\<not> length b < 29" using assms(1) parseHeader_None_iff [of b] by auto
  then show ?thesis using assms by (simp add: on_message_def Let_def)
qed

lemma on_message_drivers:
  "drivers (on_message L b s) =
     (case parseHeader b of
        None \<Rightarrow> drivers s
      | Some h \<Rightarrow>
          if packetFormat h = 2025 \<or> packetFormat h = 2024
          then drivers (state_of (dispatch L (packetId h) b (s\<lparr>packetCount := packetCount s + 1\<rparr>)))
          else drivers s)"
proof (cases "parseHeader b")
  case None
  then show ?thesis using parseHeader_None_iff [of b] by (simp add: on_message_def Let_def)
next
  case (Some h)
  show ?thesis
  proof (cases "packetFormat h = 2025 \<or> packetFormat h = 2024")
    case True
    obtain s' where s': "dispatch L (packetId h) b (s\<lparr>packetCount := packetCount s + 1\<rparr>) = Returns s'"
      using dispatch_Returns by blast
    show ?thesis using on_message_supported [OF Some True s'] Some True s' by simp
  next
    case False
    then show ?thesis using on_message_unsupported [of b h L s] Some by simp
  qed
qed

lemma parseCarTelemetry_short: "length b < 1352 \<Longrightarrow> parseCarTelemetry L b s = Returns s"
  by (simp add: parseCarTelemetry_def split: option.split)

text \<open>
  C1 (as amended). A Car Telemetry datagram of at least 29 and fewer than 1352 bytes
  makes \<open>parseCarTelemetry\<close> return at once with the state untouched. The message
  handler then counts the packet and leaves the drivers table and the session record
  as they were; \<open>errorCount\<close> stays as it was when the packet format is 2025 or 2024,
  and grows by one only when the format is unsupported.
\<close>

theorem short_car_telemetry:
  assumes "29 \<le> length b" and "length b < 1352"
    and "parseHeader b = Some h" and "packetId h = 6"
  shows "parseCarTelemetry L b s = Returns s
       \<and> drivers (on_message L b s) = drivers s
       \<and> sessionInfo (on_message L b s) = sessionInfo s
       \<and> packetCount (on_message L b s) = packetCount s + 1
       \<and> errorCount (on_message L b s) =
           (if packetFormat h = 2025 \<or> packetFormat h = 2024 then errorCount s
            else errorCount s + 1)"
proof (cases "packetFormat h = 2025 \<or> packetFormat h = 2024")
  case True
  have "dispatch L (packetId h) b (s\<lparr>packetCount := packetCount s + 1\<rparr>)
          = Returns (s\<lparr>packetCount := packetCount s + 1\<rparr>)"
    using assms by (simp add: dispatch_def parseCarTelemetry_short)
  then have "on_message L b s = s\<lparr>packetCount := packetCount s + 1\<rparr>"
    using on_message_supported [OF assms(3) True] by simp
  then show ?thesis using True assms(2) by (simp add: parseCarTelemetry_short)
next
  case False
  then show ?thesis using on_message_unsupported [of b h L s] assms
    by (simp add: parseCarTelemetry_short)
qed

lemma header2025_parse:
  "parseHeader (header2025 pid @ rest) =
     Some \<lparr> packetFormat = 2025, gameYear = 25, gameMajorVersion = 1,
            gameMinorVersion = 0, packetVersion = 1, packetId = unat pid,
            sessionUID = 0, sessionTime = F32 0, frameIdentifier = 0,
            overallFrameIdentifier = 0, playerCarIndex = 0,
            secondaryPlayerCarIndex = 0 \<rparr>"
proof -
  have e: "header2025 pid = [233, 7, 25, 1, 0, 1, pid, 0, 0, 0, 0, 0, 0, 0, 0, 0, 0, 0, 0,
      0, 0, 0, 0, 0, 0, 0, 0, 0, 0]"
    by (simp add: header2025_def numeral_eq_Suc)
  show ?thesis unfolding e
    by (simp add: parseHeader_def readUInt8_def readUIntLE_def readFloatLE_def
      in_range_def f32_of_bits_def)
qed

lemma telemetryHeader_parse:
  "parseHeader (telemetryHeader @ rest) =
     Some \<lparr> packetFormat = 2025, gameYear = 25, gameMajorVersion = 1,
            gameMinorVersion = 0, packetVersion = 1, packetId = 6,
            sessionUID = 0, sessionTime = F32 0, frameIdentifier = 0,
            overallFrameIdentifier = 0, playerCarIndex = 0,
            secondaryPlayerCarIndex = 0 \<rparr>"
  unfolding telemetryHeader_def using header2025_parse [of 6 rest] by simp

theorem short_car_telemetry_witness:
  "29 \<le> length telemetryHeader \<and> length telemetryHeader < 1352
   \<and> parseHeader telemetryHeader \<noteq> None
   \<and> packetId (the (parseHeader telemetryHeader)) = 6
   \<and> parseCarTelemetry nolib telemetryHeader freshLogger = Returns freshLogger
   \<and> drivers (on_message nolib telemetryHeader freshLogger) = drivers freshLogger
   \<and> errorCount (on_message nolib telemetryHeader freshLogger) = errorCount freshLogger"
proof -
  have p: "parseHeader telemetryHeader = Some (the (parseHeader telemetryHeader))"
    using telemetryHeader_parse [of "[]"] by simp
  have l1: "29 \<le> length telemetryHeader" and l2: "length telemetryHeader < 1352"
    by (simp_all add: telemetryHeader_def header2025_def)
  have i: "packetId (the (parseHeader telemetryHeader)) = 6"
    and f: "packetFormat (the (parseHeader telemetryHeader)) = 2025"
    using telemetryHeader_parse [of "[]"] by simp_all
  have pn: "parseHeader telemetryHeader \<noteq> None"
    using telemetryHeader_parse [of "[]"] by simp
  have c: "parseCarTelemetry nolib telemetryHeader freshLogger = Returns freshLogger
       \<and> drivers (on_message nolib telemetryHeader freshLogger) = drivers freshLogger
       \<and> errorCount (on_message nolib telemetryHeader freshLogger) = errorCount freshLogger"
    using short_car_telemetry [OF l1 l2 p i, of nolib freshLogger] f by simp
  show ?thesis using l1 l2 pn i c by (intro conjI) simp_all
qed

text \<open>
  The claim as stated fails: the 29-byte Car Telemetry datagram of format 2025 is
  shorter than 1352 bytes, and the handler leaves \<open>errorCount\<close> at 0.
\<close>

theorem short_car_telemetry_counterexample:
  "length telemetryHeader = 29
   \<and> packetId (the (parseHeader telemetryHeader)) = 6
   \<and> errorCount freshLogger = 0
   \<and> errorCount (on_message nolib telemetryHeader freshLogger) = 0"
proof -
  have p: "parseHeader telemetryHeader =
     Some \<lparr> packetFormat = 2025, gameYear = 25, gameMajorVersion = 1,
            gameMinorVersion = 0, packetVersion = 1, packetId = 6,
            sessionUID = 0, sessionTime = F32 0, frameIdentifier = 0,
            overallFrameIdentifier = 0, playerCarIndex = 0,
            secondaryPlayerCarIndex = 0 \<rparr>"
    using telemetryHeader_parse [of "[]"] by simp
  have l: "length telemetryHeader = 29" by (simp add: telemetryHeader_def header2025_def)
  have d: "dispatch nolib 6 telemetryHeader (freshLogger\<lparr>packetCount := packetCount freshLogger + 1\<rparr>)
      = Returns (freshLogger\<lparr>packetCount := packetCount freshLogger + 1\<rparr>)"
    using l by (simp add: dispatch_def parseCarTelemetry_short)
  have "on_message nolib telemetryHeader freshLogger
      = freshLogger\<lparr>packetCount := packetCount freshLogger + 1\<rparr>"
    using on_message_supported [OF p _ , of nolib freshLogger] d by simp
  then show ?thesis using l p by (simp add: freshLogger_def)
qed

subsection \<open>The scenario of the spec: speed 287 and gear 7 in slot 0\<close>

lemma le_nat_take2:
  assumes "Suc off < length b"
  shows "le_nat (take 2 (drop off b)) = unat (b ! off) + 256 * unat (b ! Suc off)"
proof -
  have "drop off b = b ! off # b ! Suc off # drop (Suc (Suc off)) b"
    using assms by (simp add: Cons_nth_drop_Suc Suc_lessD)
  then show ?thesis by (simp add: numeral_2_eq_2)
qed

lemma carTelemetryData_fields:
  assumes "0 \<le> offset" "offset + 60 \<le> int (length b)"
  shows "\<exists>t. carTelemetryData L b offset = Some t
           \<and> speed t = le_nat (take 2 (drop (nat offset) b))
           \<and> gear t = (if sint (b ! nat (offset + 15)) = - 1 then Str ''R''
                       else if sint (b ! nat (offset + 15)) = 0 then Str ''N''
                       else Num (sint (b ! nat (offset + 15))))"
  using assms
  by (simp add: carTelemetryData_def safeReadUInt8_eq safeReadUInt16LE_eq safeReadFloatLE_eq
      readInt8_in)

text \<open>
  C4 (as amended). Let a 1352-byte Car Telemetry datagram with a supported packet
  format carry the bytes \<open>0x1F 0x01\<close> (287, little-endian) at offsets 29 and 30, and
  let slot 0 of the drivers table already hold an entry. Then the message handler
  replaces the telemetry of that entry, with speed 287 and with the gear read from the
  signed byte at offset 44: \<open>R\<close> for -1, \<open>N\<close> for 0, the number itself otherwise, so 7
  for the byte 7. The rest of the entry is kept.
\<close>

theorem car_telemetry_scenario:
  assumes len: "length b = 1352" and hdr: "parseHeader b = Some h"
    and fmt: "packetFormat h = 2025 \<or> packetFormat h = 2024" and pid: "packetId h = 6"
    and b29: "b ! 29 = 31" and b30: "b ! 30 = 1" and slot: "drivers s 0 = Some d"
  shows "\<exists>t. drivers (on_message L b s) 0 = Some (d\<lparr>telemetry := Some t\<rparr>)
           \<and> speed t = 287
           \<and> gear t = (if sint (b ! 44) = - 1 then Str ''R''
                       else if sint (b ! 44) = 0 then Str ''N'' else Num (sint (b ! 44)))
           \<and> (b ! 44 = 7 \<longrightarrow> gear t = Num 7)"
proof -
  obtain t where t: "carTelemetryData L b 29 = Some t"
    and sp: "speed t = le_nat (take 2 (drop 29 b))"
    and ge: "gear t = (if sint (b ! 44) = - 1 then Str ''R''
                       else if sint (b ! 44) = 0 then Str ''N'' else Num (sint (b ! 44)))"
    using carTelemetryData_fields [of 29 b L] len by auto
  have "le_nat (take 2 (drop 29 b)) = unat (b ! 29) + 256 * unat (b ! Suc 29)"
    using le_nat_take2 [of 29 b] len by simp
  then have sp': "speed t = 287" using sp b29 b30 by simp
  have g7: "b ! 44 = 7 \<longrightarrow> gear t = Num 7" using ge by simp
  let ?s1 = "s\<lparr>packetCount := packetCount s + 1\<rparr>"
  have "drivers (on_message L b s) = drivers (state_of (parseCarTelemetry L b ?s1))"
    using on_message_drivers [of L b s] hdr fmt pid by (simp add: dispatch_def)
  also have "\<dots> = state_of (carTelemetryLoop L b 0 29 (drivers s))"
    using parseCarTelemetry_drivers [of L b ?s1] hdr len by simp
  finally have "drivers (on_message L b s) 0 = Some (d\<lparr>telemetry := Some t\<rparr>)"
    using carTelemetryLoop_first [of b "drivers s" d L t] len slot t by simp
  then show ?thesis using sp' ge g7 by blast
qed

lemma on_message_drivers_Some:
  assumes "parseHeader b = Some h" "packetFormat h = 2025 \<or> packetFormat h = 2024"
  shows "drivers (on_message L b s) =
     drivers (state_of (dispatch L (packetId h) b (s\<lparr>packetCount := packetCount s + 1\<rparr>)))"
  using on_message_drivers [of L b s] assms by simp

lemma telemetryDatagram_bytes:
  "length telemetryDatagram = 1352" "telemetryDatagram ! 29 = 31"
  "telemetryDatagram ! 30 = 1" "telemetryDatagram ! 44 = 7"
  by (simp_all add: telemetryDatagram_def telemetryHeader_def header2025_def nth_append)

lemma telemetryDatagram_header:
  "parseHeader telemetryDatagram =
     Some \<lparr> packetFormat = 2025, gameYear = 25, gameMajorVersion = 1,
            gameMinorVersion = 0, packetVersion = 1, packetId = 6,
            sessionUID = 0, sessionTime = F32 0, frameIdentifier = 0,
            overallFrameIdentifier = 0, playerCarIndex = 0,
            secondaryPlayerCarIndex = 0 \<rparr>"
  unfolding telemetryDatagram_def by (rule telemetryHeader_parse)

lemma telemetryDatagram_ids:
  "packetFormat (the (parseHeader telemetryDatagram)) = 2025"
  "packetId (the (parseHeader telemetryDatagram)) = 6"
  by (simp_all add: telemetryDatagram_header)

theorem car_telemetry_scenario_witness:
  "length telemetryDatagram = 1352
   \<and> packetFormat (the (parseHeader telemetryDatagram)) = 2025
   \<and> packetId (the (parseHeader telemetryDatagram)) = 6
   \<and> telemetryDatagram ! 29 = 31 \<and> telemetryDatagram ! 30 = 1
   \<and> telemetryDatagram ! 44 = 7
   \<and> drivers loggerWithDriver 0 = Some someDriver
   \<and> (\<exists>t. drivers (on_message nolib telemetryDatagram loggerWithDriver) 0
              = Some (someDriver\<lparr>telemetry := Some t\<rparr>)
          \<and> speed t = 287 \<and> gear t = Num 7)"
proof -
  have slot: "drivers loggerWithDriver 0 = Some someDriver"
    by (simp add: loggerWithDriver_def)
  have "\<exists>t. drivers (on_message nolib telemetryDatagram loggerWithDriver) 0
              = Some (someDriver\<lparr>telemetry := Some t\<rparr>)
          \<and> speed t = 287 \<and> gear t = Num 7"
    using car_telemetry_scenario [OF telemetryDatagram_bytes(1) telemetryDatagram_header _ _
        telemetryDatagram_bytes(2) telemetryDatagram_bytes(3) slot, of nolib]
      telemetryDatagram_bytes(4) by auto
  then show ?thesis
    using telemetryDatagram_bytes telemetryDatagram_ids slot by (intro conjI) simp_all
qed

text \<open>
  The claim as stated fails on the state the module starts in: no Participants packet
  has created slot 0, and the same datagram leaves slot 0 absent.
\<close>

theorem car_telemetry_scenario_counterexample:
  "length telemetryDatagram = 1352
   \<and> packetFormat (the (parseHeader telemetryDatagram)) = 2025
   \<and> packetId (the (parseHeader telemetryDatagram)) = 6
   \<and> telemetryDatagram ! 29 = 31 \<and> telemetryDatagram ! 30 = 1
   \<and> telemetryDatagram ! 44 = 7
   \<and> drivers (on_message nolib telemetryDatagram freshLogger) 0 = None"
proof -
  let ?s1 = "freshLogger\<lparr>packetCount := packetCount freshLogger + 1\<rparr>"
  have "drivers (on_message nolib telemetryDatagram freshLogger)
          = drivers (state_of (parseCarTelemetry nolib telemetryDatagram ?s1))"
    using on_message_drivers_Some [OF telemetryDatagram_header, of nolib freshLogger]
    by (simp add: dispatch_def)
  also have "\<dots> = state_of (carTelemetryLoop nolib telemetryDatagram 0 29 (drivers freshLogger))"
    using parseCarTelemetry_drivers [of nolib telemetryDatagram ?s1]
      telemetryDatagram_header telemetryDatagram_bytes(1) by simp
  finally have "drivers (on_message nolib telemetryDatagram freshLogger) 0 = None"
    using carTelemetryLoop_absent [of "drivers freshLogger" 0 nolib telemetryDatagram 0 29]
    by (simp add: freshLogger_def)
  then show ?thesis
    using telemetryDatagram_bytes telemetryDatagram_ids by (intro conjI) simp_all
qed

subsection \<open>Who creates entries of the drivers table\<close>

lemma parseParticipants_creates:
  assumes "1306 \<le> length b" "b ! 29 \<noteq> 0"
  shows "0 \<in> dom (drivers (state_of (parseParticipants L b s)))"
proof -
  obtain h where h: "parseHeader b = Some h"
    using parseHeader_None_iff [of b] assms(1) by (cases "parseHeader b") auto
  have n: "safeReadUInt8 b 29 = Some (unat (b ! 29))"
    using assms(1) by (simp add: safeReadUInt8_eq)
  have pos: "0 < min (unat (b ! 29)) 22"
    using assms(2) by (simp add: unat_gt_0)
  obtain ds' where ds': "participantsLoop L b h (min (unat (b ! 29)) 22) 0 30 (drivers s) = Returns ds'"
    using participantsLoop_Returns by blast
  have "0 \<in> dom (state_of (participantsLoop L b h (min (unat (b ! 29)) 22) 0 30 (drivers s)))"
    using participantsLoop_creates [OF pos, of 30 b L h "drivers s"] assms(1) by simp
  then show ?thesis using h n ds' assms(1) by (simp add: parseParticipants_def)
qed







subsection \<open>Bounds-checked and raw field reads\<close>


lemma readInt8_outside: "\<not> in_range b off 1 \<Longrightarrow> readInt8 b off = None"
  by (simp add: readInt8_def)




subsection \<open>Enumeration lookups\<close>

text \<open>
  C7 (as amended). A code outside the table maps to \<open>Unknown\<close> for weather, session
  type, tyre compound, pit status, driver status and ERS mode; for the flag state it
  maps to \<open>None\<close>.
\<close>

theorem enum_lookups_out_of_range:
  "(w < 0 \<or> 6 \<le> w \<longrightarrow> getWeatherString w = ''Unknown'')
   \<and> (t < 0 \<or> 18 \<le> t \<longrightarrow> getSessionTypeString t = ''Unknown'')
   \<and> (c < 7 \<or> 21 < c \<longrightarrow> getTyreCompoundString c = ''Unknown'')
   \<and> (p < 0 \<or> 3 \<le> p \<longrightarrow> getPitStatusString p = ''Unknown'')
   \<and> (d < 0 \<or> 5 \<le> d \<longrightarrow> getDriverStatusString d = ''Unknown'')
   \<and> (e < 0 \<or> 4 \<le> e \<longrightarrow> getERSModeString e = ''Unknown'')
   \<and> (f < - 1 \<or> 4 < f \<longrightarrow> getFlagString f = ''None'')"
  by (auto simp: getWeatherString_def getSessionTypeString_def getTyreCompoundString_def
      getPitStatusString_def getDriverStatusString_def getERSModeString_def getFlagString_def
      or_else_def js_index_def)

theorem enum_lookups_out_of_range_witness:
  "getWeatherString 6 = ''Unknown'' \<and> getSessionTypeString 18 = ''Unknown''
   \<and> getTyreCompoundString 22 = ''Unknown'' \<and> getPitStatusString 3 = ''Unknown''
   \<and> getDriverStatusString 5 = ''Unknown'' \<and> getERSModeString 4 = ''Unknown''
   \<and> getFlagString 5 = ''None''"
  using enum_lookups_out_of_range [of 6 18 22 3 5 4 5] by simp

theorem enum_lookups_out_of_range_counterexample:
  "getFlagString 5 = ''None'' \<and> getFlagString 5 \<noteq> ''Unknown''
   \<and> getFlagString (- 2) \<noteq> ''Unknown''"
  by (simp add: getFlagString_def or_else_def)

section \<open>Unsupported packet formats\<close>

lemma parsePacketHeader_None_iff: "fst (parsePacketHeader b sv) = None \<longleftrightarrow> length b < 29"
  using parseHeader_None_iff [of b]
  by (cases "parseHeader b") (simp_all add: parsePacketHeader_def)

lemma handleMessage_unexpected:
  assumes h: "parseHeader b = Some h" and f: "packetFormat h \<noteq> 2025"
  shows "effects (handleMessage now b ri sv) =
           effects sv
           @ [Emit ''warning'' (Text (''Unexpected packet format: '' @ dec (packetFormat h)))]
           @ (if forwardingEnabled (config sv) \<and> forwardSocket sv
              then [Send b (forwardingPort (config sv)) (forwardingAddress (config sv))]
              else [])
           @ [Emit ''packet''
                (Data \<lparr> packetType = or_else (PACKET_TYPES (packetId h)) ''Unknown'',
                        buffer = b, rinfo = ri, timestamp = now, header = h \<rparr>),
              Emit (''packet:'' @ toLowerCase (or_else (PACKET_TYPES (packetId h)) ''Unknown''))
                (Data \<lparr> packetType = or_else (PACKET_TYPES (packetId h)) ''Unknown'',
                        buffer = b, rinfo = ri, timestamp = now, header = h \<rparr>)]"
    and "packetsReceived (stats (handleMessage now b ri sv)) = packetsReceived (stats sv) + 1"
    and "packetCounts (stats (handleMessage now b ri sv))
           (or_else (PACKET_TYPES (packetId h)) ''Unknown'')
         = Some ((case packetCounts (stats sv) (or_else (PACKET_TYPES (packetId h)) ''Unknown'')
                  of None \<Rightarrow> 0 | Some c \<Rightarrow> c) + 1)"
  using h f by (simp_all add: handleMessage_def parsePacketHeader_def Let_def)


text \<open>
  C3 (as amended). Both header decoders fail exactly on buffers shorter than 29
  bytes. In the event service a datagram whose format is not 2025 still yields its
  header: the service emits a \<open>warning\<close>, counts the packet, forwards it when
  forwarding is on and emits the two \<open>packet\<close> events. In \<open>telemetry.js\<close> the
  message handler rejects a datagram whose format is neither 2025 nor 2024 before any
  body decoder runs: it prints a warning (while fewer than five errors have been
  counted), adds one to \<open>errorCount\<close> and changes nothing else but \<open>packetCount\<close>.
\<close>

theorem unsupported_format:
  "(parseHeader b = None \<longleftrightarrow> length b < 29)
   \<and> (fst (parsePacketHeader b sv) = None \<longleftrightarrow> length b < 29)
   \<and> (\<forall>h. parseHeader b = Some h \<and> packetFormat h \<noteq> 2025 \<longrightarrow>
         fst (parsePacketHeader b sv) = Some h
         \<and> effects (handleMessage now b ri sv) =
             effects sv
             @ [Emit ''warning'' (Text (''Unexpected packet format: '' @ dec (packetFormat h)))]
             @ (if forwardingEnabled (config sv) \<and> forwardSocket sv
                then [Send b (forwardingPort (config sv)) (forwardingAddress (config sv))]
                else [])
             @ [Emit ''packet''
                  (Data \<lparr> packetType = or_else (PACKET_TYPES (packetId h)) ''Unknown'',
                          buffer = b, rinfo = ri, timestamp = now, header = h \<rparr>),
                Emit (''packet:'' @ toLowerCase (or_else (PACKET_TYPES (packetId h)) ''Unknown''))
                  (Data \<lparr> packetType = or_else (PACKET_TYPES (packetId h)) ''Unknown'',
                          buffer = b, rinfo = ri, timestamp = now, header = h \<rparr>)]
         \<and> packetsReceived (stats (handleMessage now b ri sv)) = packetsReceived (stats sv) + 1
         \<and> packetCounts (stats (handleMessage now b ri sv))
              (or_else (PACKET_TYPES (packetId h)) ''Unknown'')
            = Some ((case packetCounts (stats sv)
                            (or_else (PACKET_TYPES (packetId h)) ''Unknown'')
                     of None \<Rightarrow> 0 | Some c \<Rightarrow> c) + 1))
   \<and> (\<forall>h. parseHeader b = Some h \<and> packetFormat h \<noteq> 2025 \<and> packetFormat h \<noteq> 2024 \<longrightarrow>
         on_message L b s =
           s\<lparr> packetCount := packetCount s + 1,
              console := console s @
                (if errorCount s < 5 then
                   [''Warning: Received packet format '' @ dec (packetFormat h)
                    @ '', expected 2025 for F1 25 or 2024 for F1 24'']
                 else []),
              errorCount := errorCount s + 1 \<rparr>)"
proof (intro conjI allI impI)
  show "parseHeader b = None \<longleftrightarrow> length b < 29" by (rule parseHeader_None_iff)
  show "fst (parsePacketHeader b sv) = None \<longleftrightarrow> length b < 29"
    by (rule parsePacketHeader_None_iff)
next
  fix h assume a: "parseHeader b = Some h \<and> packetFormat h \<noteq> 2025"
  then have h: "parseHeader b = Some h" and f: "packetFormat h \<noteq> 2025" by simp_all
  show "fst (parsePacketHeader b sv) = Some h" using h by (simp add: parsePacketHeader_def)
  show "effects (handleMessage now b ri sv) =
             effects sv
             @ [Emit ''warning'' (Text (''Unexpected packet format: '' @ dec (packetFormat h)))]
             @ (if forwardingEnabled (config sv) \<and> forwardSocket sv
                then [Send b (forwardingPort (config sv)) (forwardingAddress (config sv))]
                else [])
             @ [Emit ''packet''
                  (Data \<lparr> packetType = or_else (PACKET_TYPES (packetId h)) ''Unknown'',
                          buffer = b, rinfo = ri, timestamp = now, header = h \<rparr>),
                Emit (''packet:'' @ toLowerCase (or_else (PACKET_TYPES (packetId h)) ''Unknown''))
                  (Data \<lparr> packetType = or_else (PACKET_TYPES (packetId h)) ''Unknown'',
                          buffer = b, rinfo = ri, timestamp = now, header = h \<rparr>)]"
    by (rule handleMessage_unexpected(1) [OF h f])
  show "packetsReceived (stats (handleMessage now b ri sv)) = packetsReceived (stats sv) + 1"
    by (rule handleMessage_unexpected(2) [OF h f])
  show "packetCounts (stats (handleMessage now b ri sv))
              (or_else (PACKET_TYPES (packetId h)) ''Unknown'')
            = Some ((case packetCounts (stats sv)
                            (or_else (PACKET_TYPES (packetId h)) ''Unknown'')
                     of None \<Rightarrow> 0 | Some c \<Rightarrow> c) + 1)"
    by (rule handleMessage_unexpected(3) [OF h f])
next
  fix h
  assume "parseHeader b = Some h \<and> packetFormat h \<noteq> 2025 \<and> packetFormat h \<noteq> 2024"
  then show "on_message L b s =
           s\<lparr> packetCount := packetCount s + 1,
              console := console s @
                (if errorCount s < 5 then
                   [''Warning: Received packet format '' @ dec (packetFormat h)
                    @ '', expected 2025 for F1 25 or 2024 for F1 24'']
                 else []),
              errorCount := errorCount s + 1 \<rparr>"
    using on_message_unsupported [of b h L s] by simp
qed

lemma oldParticipants_header:
  "parseHeader oldParticipants =
     Some \<lparr> packetFormat = 2023, gameYear = 23, gameMajorVersion = 1,
            gameMinorVersion = 0, packetVersion = 1, packetId = 4,
            sessionUID = 0, sessionTime = F32 0, frameIdentifier = 0,
            overallFrameIdentifier = 0, playerCarIndex = 0,
            secondaryPlayerCarIndex = 0 \<rparr>"
proof -
  have e: "oldParticipants = [231, 7, 23, 1, 0, 1, 4, 0, 0, 0, 0, 0, 0, 0, 0, 0, 0, 0, 0,
      0, 0, 0, 0, 0, 0, 0, 0, 0, 0] @ [1] @ replicate 1276 0"
    by (simp add: oldParticipants_def numeral_eq_Suc)
  show ?thesis unfolding e
    by (simp add: parseHeader_def readUInt8_def readUIntLE_def readFloatLE_def
      in_range_def f32_of_bits_def)
qed

lemma oldParticipants_bytes:
  "1306 \<le> length oldParticipants" "oldParticipants ! 29 \<noteq> 0"
  by (simp_all add: oldParticipants_def nth_append)

theorem unsupported_format_witness:
  "parseHeader oldParticipants \<noteq> None
   \<and> packetFormat (the (parseHeader oldParticipants)) = 2023
   \<and> fst (parsePacketHeader oldParticipants someService) = parseHeader oldParticipants
   \<and> effects (handleMessage 7 oldParticipants (''127.0.0.1'', 5000) someService) =
        [Emit ''warning'' (Text (''Unexpected packet format: '' @ dec 2023)),
         Send oldParticipants 20778 ''127.0.0.1'',
         Emit ''packet''
           (Data \<lparr> packetType = ''Participants'', buffer = oldParticipants,
                   rinfo = (''127.0.0.1'', 5000), timestamp = 7,
                   header = the (parseHeader oldParticipants) \<rparr>),
         Emit ''packet:participants''
           (Data \<lparr> packetType = ''Participants'', buffer = oldParticipants,
                   rinfo = (''127.0.0.1'', 5000), timestamp = 7,
                   header = the (parseHeader oldParticipants) \<rparr>)]
   \<and> packetsReceived (stats (handleMessage 7 oldParticipants (''127.0.0.1'', 5000) someService)) = 1
   \<and> errorCount (on_message nolib oldParticipants freshLogger) = 1
   \<and> drivers (on_message nolib oldParticipants freshLogger) = drivers freshLogger"
proof -
  note t = unsupported_format [of oldParticipants someService 7 "(''127.0.0.1'', 5000)" nolib
      freshLogger]
  have pt: "or_else (PACKET_TYPES 4) ''Unknown'' = ''Participants''"
    by (simp add: PACKET_TYPES_def or_else_def)
  have lc: "toLowerCase ''Participants'' = ''participants''"
    by code_simp
  have fw: "forwardingEnabled (config someService) \<and> forwardSocket someService"
    "forwardingPort (config someService) = 20778"
    "forwardingAddress (config someService) = ''127.0.0.1''"
    "effects someService = []" "packetsReceived (stats someService) = 0"
    by (simp_all add: someService_def)
  show ?thesis
    using t oldParticipants_header pt lc fw by (simp add: freshLogger_def)
qed

text \<open>
  The claim as stated fails in \<open>telemetry.js\<close>: the full-length Participants
  datagram of format 2023 is counted as an error and never reaches its body decoder,
  which would have created slot 0.
\<close>

theorem unsupported_format_counterexample:
  "29 \<le> length oldParticipants
   \<and> packetFormat (the (parseHeader oldParticipants)) = 2023
   \<and> packetId (the (parseHeader oldParticipants)) = 4
   \<and> 0 \<in> dom (drivers (state_of (parseParticipants nolib oldParticipants freshLogger)))
   \<and> drivers (on_message nolib oldParticipants freshLogger) 0 = None
   \<and> errorCount (on_message nolib oldParticipants freshLogger) = 1"
proof -
  have "0 \<in> dom (drivers (state_of (parseParticipants nolib oldParticipants freshLogger)))"
    using parseParticipants_creates [OF oldParticipants_bytes] by simp
  moreover have "on_message nolib oldParticipants freshLogger =
      freshLogger\<lparr> packetCount := packetCount freshLogger + 1,
        console := console freshLogger @
          (if errorCount freshLogger < 5 then
             [''Warning: Received packet format '' @ dec 2023
              @ '', expected 2025 for F1 25 or 2024 for F1 24'']
           else []),
        errorCount := errorCount freshLogger + 1 \<rparr>"
    using on_message_unsupported [OF oldParticipants_header, of nolib freshLogger] by simp
  ultimately show ?thesis
    using oldParticipants_header oldParticipants_bytes(1) by (simp add: freshLogger_def)
qed

section \<open>The recorder's state machine\<close>

lemma startNewRecording_state:
  "currentState (state_of (startNewRecording ts r)) = RECORDING"
  by (simp add: startNewRecording_def warn_def Let_def)

lemma saveRecording_state:
  "currentState (state_of (saveRecording ts renamed r)) =
     (if currentState r = FINISHED \<and> currentTempFile r \<noteq> None \<and> renamed then IDLE
      else currentState r)"
  by (simp add: saveRecording_def warn_def Let_def split: option.split)

text \<open>
  C2 (as amended). \<open>saveRecording\<close> changes the recording state only from
  \<open>FINISHED\<close>. \<open>startNewRecording\<close> refuses only while \<open>RECORDING\<close>: from
  \<open>IDLE\<close>, \<open>PAUSED\<close> and \<open>FINISHED\<close> alike it ends the previous stream (when
  there is one), resets the counters, the queue and the statistics, opens a stream on
  a new temporary file and enters \<open>RECORDING\<close>. From \<open>FINISHED\<close>, \<open>saveRecording\<close>
  renames the temporary file and returns to \<open>IDLE\<close>, or throws with nothing changed
  when the renaming fails. Every key press that a function refuses (start
  while recording, save without a finished recording, finish while not recording or
  paused, pause while idle or finished, discard without a temporary file) returns
  normally with nothing changed but the printed warning and the delayed refresh of the
  display.
\<close>

theorem recorder_transitions:
  "(currentState (state_of (saveRecording ts renamed r)) \<noteq> currentState r
      \<longrightarrow> currentState r = FINISHED)
   \<and> (currentState (state_of (startNewRecording ts r)) \<noteq> currentState r
        \<longleftrightarrow> currentState r \<noteq> RECORDING)
   \<and> (currentState r \<noteq> RECORDING \<longrightarrow>
         (\<exists>r'. startNewRecording ts r = Returns r' \<and> currentState r' = RECORDING))
   \<and> (currentState r \<noteq> RECORDING \<longrightarrow>
         startNewRecording ts r =
           Returns (r\<lparr> packetCount_cap := 0, dataSize := 0, sessionStartTime_cap := 0,
                      lastPacketTime_cap := 0, maxGap := 0, droppedPackets := 0,
                      writeQueue := [], packetStats := Map.empty,
                      currentTempFile := Some (''temp_sessions/temp_session_'' @ ts @ ''.bin''),
                      writeStream := Some (''temp_sessions/temp_session_'' @ ts @ ''.bin''),
                      fs := fs r
                        @ (case writeStream r of None \<Rightarrow> [] | Some p \<Rightarrow> [StreamEnd p])
                        @ [CreateWriteStream (''temp_sessions/temp_session_'' @ ts @ ''.bin'')],
                      currentState := RECORDING,
                      printed := printed r @
                        [UpdateDisplay, Log ''RECORDING STARTED!'',
                         Log ''Waiting for F1 25 telemetry data...''] \<rparr>))
   \<and> (currentState r = FINISHED \<and> currentTempFile r = Some tmp \<longrightarrow>
         saveRecording ts True r =
           Returns (r\<lparr> fs := fs r @
                        [RenameSync tmp (''captured_data/f1_session_'' @ ts @ ''.bin'')],
                      currentState := IDLE, currentTempFile := None, writeStream := None,
                      printed := printed r @
                        [UpdateDisplay, Log ''RECORDING SAVED!'',
                         Log (''File: f1_session_'' @ ts @ ''.bin'')] \<rparr>)
         \<and> saveRecording ts False r = Throws r)
   \<and> (currentState r = RECORDING \<longrightarrow>
         startNewRecording ts r =
           Returns (r\<lparr> printed := printed r @
             [Log ''Already recording! Press [F] to finish first.'',
              UpdateDisplayLater 2000] \<rparr>))
   \<and> (currentState r \<noteq> FINISHED \<or> currentTempFile r = None \<longrightarrow>
         saveRecording ts renamed r =
           Returns (r\<lparr> printed := printed r @
             [Log ''No finished recording to save! Press [F] first.'',
              UpdateDisplayLater 2000] \<rparr>))
   \<and> (currentState r \<noteq> RECORDING \<and> currentState r \<noteq> PAUSED \<longrightarrow>
         finishRecording r =
           Returns (r\<lparr> printed := printed r @
             [Log ''Not recording! Press [R] to start a new recording.'',
              UpdateDisplayLater 2000] \<rparr>))
   \<and> (currentState r \<noteq> RECORDING \<and> currentState r \<noteq> PAUSED \<longrightarrow>
         togglePause r =
           Returns (r\<lparr> printed := printed r @
             [Log ''Start a recording first with [R]!'', UpdateDisplayLater 2000] \<rparr>))
   \<and> (currentTempFile r = None \<longrightarrow>
         discardRecording present unlinked r =
           Returns (r\<lparr> printed := printed r @
             [Log ''No recording to discard!'', UpdateDisplayLater 2000] \<rparr>))"
proof (intro conjI impI)
  assume "currentState (state_of (saveRecording ts renamed r)) \<noteq> currentState r"
  then show "currentState r = FINISHED"
    by (simp add: saveRecording_state split: if_splits)
next
  show "currentState (state_of (startNewRecording ts r)) \<noteq> currentState r
        \<longleftrightarrow> currentState r \<noteq> RECORDING"
    using startNewRecording_state [of ts r] by auto
next
  assume "currentState r \<noteq> RECORDING"
  then show "\<exists>r'. startNewRecording ts r = Returns r' \<and> currentState r' = RECORDING"
    by (simp add: startNewRecording_def Let_def)
next
  assume "currentState r \<noteq> RECORDING"
  then show "startNewRecording ts r =
           Returns (r\<lparr> packetCount_cap := 0, dataSize := 0, sessionStartTime_cap := 0,
                      lastPacketTime_cap := 0, maxGap := 0, droppedPackets := 0,
                      writeQueue := [], packetStats := Map.empty,
                      currentTempFile := Some (''temp_sessions/temp_session_'' @ ts @ ''.bin''),
                      writeStream := Some (''temp_sessions/temp_session_'' @ ts @ ''.bin''),
                      fs := fs r
                        @ (case writeStream r of None \<Rightarrow> [] | Some p \<Rightarrow> [StreamEnd p])
                        @ [CreateWriteStream (''temp_sessions/temp_session_'' @ ts @ ''.bin'')],
                      currentState := RECORDING,
                      printed := printed r @
                        [UpdateDisplay, Log ''RECORDING STARTED!'',
                         Log ''Waiting for F1 25 telemetry data...''] \<rparr>)"
    by (cases "writeStream r")
       (simp_all add: startNewRecording_def endStream_def tempDir_def Let_def)
next
  assume a: "currentState r = FINISHED \<and> currentTempFile r = Some tmp"
  show "saveRecording ts True r =
           Returns (r\<lparr> fs := fs r @
                        [RenameSync tmp (''captured_data/f1_session_'' @ ts @ ''.bin'')],
                      currentState := IDLE, currentTempFile := None, writeStream := None,
                      printed := printed r @
                        [UpdateDisplay, Log ''RECORDING SAVED!'',
                         Log (''File: f1_session_'' @ ts @ ''.bin'')] \<rparr>)"
    using a by (simp add: saveRecording_def dataDir_def Let_def)
  show "saveRecording ts False r = Throws r"
    using a by (simp add: saveRecording_def Let_def)
next
  assume "currentState r = RECORDING"
  then show "startNewRecording ts r =
           Returns (r\<lparr> printed := printed r @
             [Log ''Already recording! Press [F] to finish first.'',
              UpdateDisplayLater 2000] \<rparr>)"
    by (simp add: startNewRecording_def warn_def)
next
  assume "currentState r \<noteq> FINISHED \<or> currentTempFile r = None"
  then show "saveRecording ts renamed r =
           Returns (r\<lparr> printed := printed r @
             [Log ''No finished recording to save! Press [F] first.'',
              UpdateDisplayLater 2000] \<rparr>)"
    by (auto simp: saveRecording_def warn_def split: option.split)
next
  assume "currentState r \<noteq> RECORDING \<and> currentState r \<noteq> PAUSED"
  then show "finishRecording r =
           Returns (r\<lparr> printed := printed r @
             [Log ''Not recording! Press [R] to start a new recording.'',
              UpdateDisplayLater 2000] \<rparr>)"
    by (simp add: finishRecording_def warn_def)
next
  assume "currentState r \<noteq> RECORDING \<and> currentState r \<noteq> PAUSED"
  then show "togglePause r =
           Returns (r\<lparr> printed := printed r @
             [Log ''Start a recording first with [R]!'', UpdateDisplayLater 2000] \<rparr>)"
    by (simp add: togglePause_def warn_def)
next
  assume "currentTempFile r = None"
  then show "discardRecording present unlinked r =
           Returns (r\<lparr> printed := printed r @
             [Log ''No recording to discard!'', UpdateDisplayLater 2000] \<rparr>)"
    by (simp add: discardRecording_def warn_def)
qed

theorem recorder_transitions_witness:
  "currentState (state_of (saveRecording ''t'' True finishedRecorder))
      \<noteq> currentState finishedRecorder
   \<and> currentState finishedRecorder = FINISHED
   \<and> currentState idleRecorder \<noteq> RECORDING
   \<and> (\<exists>r'. startNewRecording ''t'' idleRecorder = Returns r' \<and> currentState r' = RECORDING)
   \<and> currentState (state_of (startNewRecording ''t'' idleRecorder)) = RECORDING
   \<and> startNewRecording ''u'' (state_of (startNewRecording ''t'' idleRecorder)) =
        Returns ((state_of (startNewRecording ''t'' idleRecorder))
          \<lparr> printed := printed (state_of (startNewRecording ''t'' idleRecorder)) @
             [Log ''Already recording! Press [F] to finish first.'',
              UpdateDisplayLater 2000] \<rparr>)
   \<and> currentState pausedRecorder \<noteq> RECORDING
   \<and> fs (state_of (startNewRecording ''t'' pausedRecorder)) =
        [StreamEnd ''temp_sessions/a.bin'',
         CreateWriteStream ''temp_sessions/temp_session_t.bin'']
   \<and> packetCount_cap pausedRecorder = 3
   \<and> packetCount_cap (state_of (startNewRecording ''t'' pausedRecorder)) = 0
   \<and> currentTempFile finishedRecorder = Some ''temp_sessions/a.bin''
   \<and> fs (state_of (saveRecording ''t'' True finishedRecorder)) =
        [RenameSync ''temp_sessions/a.bin'' ''captured_data/f1_session_t.bin'']
   \<and> currentTempFile (state_of (saveRecording ''t'' True finishedRecorder)) = None
   \<and> saveRecording ''t'' False finishedRecorder = Throws finishedRecorder
   \<and> currentTempFile idleRecorder = None
   \<and> saveRecording ''t'' True idleRecorder =
        Returns (idleRecorder\<lparr> printed := printed idleRecorder @
          [Log ''No finished recording to save! Press [F] first.'',
           UpdateDisplayLater 2000] \<rparr>)
   \<and> finishRecording idleRecorder =
        Returns (idleRecorder\<lparr> printed := printed idleRecorder @
          [Log ''Not recording! Press [R] to start a new recording.'',
           UpdateDisplayLater 2000] \<rparr>)
   \<and> togglePause idleRecorder =
        Returns (idleRecorder\<lparr> printed := printed idleRecorder @
          [Log ''Start a recording first with [R]!'', UpdateDisplayLater 2000] \<rparr>)
   \<and> discardRecording True True idleRecorder =
        Returns (idleRecorder\<lparr> printed := printed idleRecorder @
          [Log ''No recording to discard!'', UpdateDisplayLater 2000] \<rparr>)"
proof -
  let ?rec = "state_of (startNewRecording ''t'' idleRecorder)"
  have i: "currentState idleRecorder = IDLE" "currentTempFile idleRecorder = None"
    by (simp_all add: idleRecorder_def)
  have f: "currentState finishedRecorder = FINISHED"
    "currentTempFile finishedRecorder \<noteq> None"
    by (simp_all add: finishedRecorder_def pausedRecorder_def idleRecorder_def)
  have s: "currentState (state_of (saveRecording ''t'' True finishedRecorder))
      \<noteq> currentState finishedRecorder"
    using f by (simp add: saveRecording_state)
  have rec: "currentState ?rec = RECORDING" by (rule startNewRecording_state)
  note a = recorder_transitions [of "''t''" True idleRecorder "''x''" True True]
  note b = recorder_transitions [of "''u''" True ?rec "''x''" True True]
  note c = recorder_transitions [of "''t''" True finishedRecorder "''temp_sessions/a.bin''"
      True True]
  note d = recorder_transitions [of "''t''" True pausedRecorder "''temp_sessions/a.bin''"
      True True]
  have fin: "currentState finishedRecorder = FINISHED" using c s by blast
  have p: "currentState pausedRecorder \<noteq> RECORDING" "packetCount_cap pausedRecorder = 3"
    "writeStream pausedRecorder = Some ''temp_sessions/a.bin''" "fs pausedRecorder = []"
    by (simp_all add: pausedRecorder_def idleRecorder_def)
  have ft: "currentTempFile finishedRecorder = Some ''temp_sessions/a.bin''"
    "fs finishedRecorder = []"
    by (simp_all add: finishedRecorder_def pausedRecorder_def idleRecorder_def)
  have st: "fs (state_of (startNewRecording ''t'' pausedRecorder)) =
        [StreamEnd ''temp_sessions/a.bin'',
         CreateWriteStream ''temp_sessions/temp_session_t.bin'']
      \<and> packetCount_cap (state_of (startNewRecording ''t'' pausedRecorder)) = 0"
    using d p by simp
  have sv: "fs (state_of (saveRecording ''t'' True finishedRecorder)) =
        [RenameSync ''temp_sessions/a.bin'' ''captured_data/f1_session_t.bin'']
      \<and> currentTempFile (state_of (saveRecording ''t'' True finishedRecorder)) = None
      \<and> saveRecording ''t'' False finishedRecorder = Throws finishedRecorder"
    using c fin ft by simp
  show ?thesis using a b i fin s rec p(1,2) ft(1) st sv by (intro conjI) simp_all
qed

text \<open>
  The claim as stated fails for \<open>start\<close>: from \<open>PAUSED\<close> and from \<open>FINISHED\<close> it is
  carried out, and the state becomes \<open>RECORDING\<close>.
\<close>

theorem recorder_transitions_counterexample:
  "currentState pausedRecorder = PAUSED
   \<and> currentState (state_of (startNewRecording ''t'' pausedRecorder)) = RECORDING
   \<and> currentState finishedRecorder = FINISHED
   \<and> currentState (state_of (startNewRecording ''t'' finishedRecorder)) = RECORDING
   \<and> currentTempFile (state_of (startNewRecording ''t'' finishedRecorder))
       = Some ''temp_sessions/temp_session_t.bin''"
  by (simp add: startNewRecording_def finishedRecorder_def pausedRecorder_def
      idleRecorder_def endStream_def tempDir_def Let_def)

section \<open>Replay\<close>

lemma replayDelay_halves: "replayDelay ts first 2 = replayDelay ts first 1 / 2"
  by (simp add: replayDelay_def)

lemma slice_past_end:
  "length b \<le> start + n \<Longrightarrow> slice b start (start + n) = drop start b"
  by (simp add: slice_def)

lemma sendNextPacket_metadata:
  assumes "offset_rp r + 12 \<le> length f"
  shows "readUInt32LE f (int (offset_rp r)) = Some (le_nat (take 4 (drop (offset_rp r) f)))"
    and "readBigUInt64LE f (int (offset_rp r) + 4)
           = Some (le_nat (take 8 (drop (offset_rp r + 4) f)))"
  using assms by (simp_all add: readUIntLE_def in_range_def nat_add_distrib)

lemma sendNextPacket_later_frame:
  assumes "offset_rp r + 12 \<le> length f" and "firstTimestamp r = Some first"
    and "sendable (slice f (offset_rp r + 12)
                   (offset_rp r + 12 + le_nat (take 4 (drop (offset_rp r) f))))"
  shows "sendNextPacket sendable f speedMul start now r =
           Sent (slice f (offset_rp r + 12)
                   (offset_rp r + 12 + le_nat (take 4 (drop (offset_rp r) f))))
             (if 0 < of_int start
                    + replayDelay (int (le_nat (take 8 (drop (offset_rp r + 4) f)))) first speedMul
                    - of_int now
              then Timeout (of_int start
                    + replayDelay (int (le_nat (take 8 (drop (offset_rp r + 4) f)))) first speedMul
                    - of_int now)
              else Immediate)
             (r\<lparr> offset_rp := offset_rp r + 12 + le_nat (take 4 (drop (offset_rp r) f)),
                  packetCount_rp := packetCount_rp r + 1 \<rparr>)"
  using assms sendNextPacket_metadata [of r f]
  by (simp add: sendNextPacket_def Let_def)

text \<open>
  C9 (as amended). When the twelve bytes of a frame's metadata are in the file and
  its length field points past the end of the file, \<open>sendNextPacket\<close> does not stop
  at the length: it hands what is left of the file to \<open>client.send\<close> as that frame's
  payload. If the socket sends it, the call after it finds the offset at or past the
  end and reports the replay complete. If the socket refuses it, the run ends there
  with the send error. When fewer than twelve bytes are left for the metadata the run
  dies of the uncaught \<open>RangeError\<close>.
\<close>

theorem replay_truncated_frame:
  "(offset_rp r + 12 \<le> length f
      \<and> length f < offset_rp r + 12 + le_nat (take 4 (drop (offset_rp r) f))
      \<and> sendable (drop (offset_rp r + 12) f)
     \<longrightarrow> (\<exists>sch r'. sendNextPacket sendable f speedMul start now r
                       = Sent (drop (offset_rp r + 12) f) sch r'
                   \<and> sendNextPacket sendable f speedMul start now' r' = Complete))
   \<and> (offset_rp r + 12 \<le> length f
      \<and> length f < offset_rp r + 12 + le_nat (take 4 (drop (offset_rp r) f))
      \<and> \<not> sendable (drop (offset_rp r + 12) f)
     \<longrightarrow> sendNextPacket sendable f speedMul start now r
           = SendError (drop (offset_rp r + 12) f))
   \<and> (offset_rp r < length f \<and> length f < offset_rp r + 12
     \<longrightarrow> sendNextPacket sendable f speedMul start now r = Crash)"
proof (intro conjI impI)
  assume a: "offset_rp r + 12 \<le> length f
      \<and> length f < offset_rp r + 12 + le_nat (take 4 (drop (offset_rp r) f))
      \<and> sendable (drop (offset_rp r + 12) f)"
  let ?n = "le_nat (take 4 (drop (offset_rp r) f))"
  have m: "readUInt32LE f (int (offset_rp r)) = Some ?n"
    "\<exists>ts. readBigUInt64LE f (int (offset_rp r) + 4) = Some ts"
    using sendNextPacket_metadata [of r f] a by simp_all
  then obtain ts where ts: "readBigUInt64LE f (int (offset_rp r) + 4) = Some ts" by blast
  have sl: "slice f (offset_rp r + 12) (offset_rp r + 12 + ?n) = drop (offset_rp r + 12) f"
    using a by (simp add: slice_past_end)
  have nz: "\<not> length f \<le> offset_rp r" using a by simp
  have ok: "sendable (drop (offset_rp r + 12) f)" using a by simp
  obtain sch r' where s: "sendNextPacket sendable f speedMul start now r
        = Sent (drop (offset_rp r + 12) f) sch r'"
    and o: "offset_rp r' = offset_rp r + 12 + ?n"
    using m(1) ts sl nz ok
    by (cases "firstTimestamp r") (simp_all add: sendNextPacket_def Let_def)
  have "sendNextPacket sendable f speedMul start now' r' = Complete"
    using o a by (simp add: sendNextPacket_def)
  then show "\<exists>sch r'. sendNextPacket sendable f speedMul start now r
                       = Sent (drop (offset_rp r + 12) f) sch r'
                   \<and> sendNextPacket sendable f speedMul start now' r' = Complete"
    using s by blast
next
  assume a: "offset_rp r + 12 \<le> length f
      \<and> length f < offset_rp r + 12 + le_nat (take 4 (drop (offset_rp r) f))
      \<and> \<not> sendable (drop (offset_rp r + 12) f)"
  let ?n = "le_nat (take 4 (drop (offset_rp r) f))"
  have m: "readUInt32LE f (int (offset_rp r)) = Some ?n"
    "\<exists>ts. readBigUInt64LE f (int (offset_rp r) + 4) = Some ts"
    using sendNextPacket_metadata [of r f] a by simp_all
  then obtain ts where ts: "readBigUInt64LE f (int (offset_rp r) + 4) = Some ts" by blast
  have sl: "slice f (offset_rp r + 12) (offset_rp r + 12 + ?n) = drop (offset_rp r + 12) f"
    using a by (simp add: slice_past_end)
  have nz: "\<not> length f \<le> offset_rp r" using a by simp
  have no: "\<not> sendable (drop (offset_rp r + 12) f)" using a by simp
  show "sendNextPacket sendable f speedMul start now r
           = SendError (drop (offset_rp r + 12) f)"
    using m(1) ts sl nz no by (simp add: sendNextPacket_def Let_def)
next
  assume a: "offset_rp r < length f \<and> length f < offset_rp r + 12"
  show "sendNextPacket sendable f speedMul start now r = Crash"
  proof (cases "readUInt32LE f (int (offset_rp r))")
    case None
    then show ?thesis using a by (simp add: sendNextPacket_def)
  next
    case (Some n)
    have "readBigUInt64LE f (int (offset_rp r) + 4) = None"
      using a by (simp add: readUIntLE_def in_range_def)
    then show ?thesis using a Some by (simp add: sendNextPacket_def)
  qed
qed

lemma truncatedFile_bytes:
  "truncatedFile = [5, 0, 0, 0, 232, 3, 0, 0, 0, 0, 0, 0, 1, 2]"
  by (simp add: truncatedFile_def frame_def le_bytes_numeral)

lemma oversizedFile_bytes:
  "oversizedFile = [112, 17, 1, 0, 232, 3, 0, 0, 0, 0, 0, 0] @ replicate 65508 0"
  by (simp add: oversizedFile_def frame_def le_bytes_numeral)

theorem replay_truncated_frame_witness:
  "offset_rp initialReplay + 12 \<le> length truncatedFile
   \<and> length truncatedFile
        < offset_rp initialReplay + 12 + le_nat (take 4 (drop (offset_rp initialReplay) truncatedFile))
   \<and> udpSendable (drop (offset_rp initialReplay + 12) truncatedFile)
   \<and> (\<exists>sch r'. sendNextPacket udpSendable truncatedFile 1 0 0 initialReplay
                    = Sent (drop (offset_rp initialReplay + 12) truncatedFile) sch r'
                \<and> sendNextPacket udpSendable truncatedFile 1 0 0 r' = Complete)
   \<and> offset_rp initialReplay + 12 \<le> length oversizedFile
   \<and> length oversizedFile
        < offset_rp initialReplay + 12 + le_nat (take 4 (drop (offset_rp initialReplay) oversizedFile))
   \<and> \<not> udpSendable (drop (offset_rp initialReplay + 12) oversizedFile)
   \<and> sendNextPacket udpSendable oversizedFile 1 0 0 initialReplay
        = SendError (drop (offset_rp initialReplay + 12) oversizedFile)
   \<and> offset_rp initialReplay < length (take 4 truncatedFile)
   \<and> length (take 4 truncatedFile) < offset_rp initialReplay + 12
   \<and> sendNextPacket udpSendable (take 4 truncatedFile) 1 0 0 initialReplay = Crash"
proof -
  have a: "offset_rp initialReplay + 12 \<le> length truncatedFile
   \<and> length truncatedFile
        < offset_rp initialReplay + 12 + le_nat (take 4 (drop (offset_rp initialReplay) truncatedFile))
   \<and> udpSendable (drop (offset_rp initialReplay + 12) truncatedFile)"
    by (simp add: truncatedFile_bytes initialReplay_def udpSendable_def)
  have b: "offset_rp initialReplay < length (take 4 truncatedFile)
   \<and> length (take 4 truncatedFile) < offset_rp initialReplay + 12"
    by (simp add: truncatedFile_bytes initialReplay_def)
  have c: "offset_rp initialReplay + 12 \<le> length oversizedFile
   \<and> length oversizedFile
        < offset_rp initialReplay + 12 + le_nat (take 4 (drop (offset_rp initialReplay) oversizedFile))
   \<and> \<not> udpSendable (drop (offset_rp initialReplay + 12) oversizedFile)"
    by (simp add: oversizedFile_bytes initialReplay_def udpSendable_def)
  show ?thesis
    using a b c replay_truncated_frame [of initialReplay truncatedFile udpSendable 1 0 0 0]
      replay_truncated_frame [of initialReplay oversizedFile udpSendable 1 0 0 0]
      replay_truncated_frame [of initialReplay "take 4 truncatedFile" udpSendable 1 0 0 0]
    by blast
qed

text \<open>
  The claim as stated fails: the file whose only frame announces five bytes and
  holds two is replayed to the end, its two bytes are sent, and the run completes.
\<close>

theorem replay_truncated_frame_counterexample:
  "length truncatedFile = 14
   \<and> readUInt32LE truncatedFile 0 = Some 5
   \<and> sendNextPacket udpSendable truncatedFile 1 0 0 initialReplay =
        Sent [1, 2] Immediate
          \<lparr> offset_rp = 17, packetCount_rp = 1, firstTimestamp = Some 1000 \<rparr>
   \<and> startReplay udpSendable truncatedFile 1 0 [0, 0] = ([([1, 2], Immediate)], Completed)"
  by (simp add: truncatedFile_bytes startReplay_def initialReplay_def sendNextPacket_def
      readUIntLE_def in_range_def slice_def udpSendable_def Let_def)

lemma threeFrames_bytes:
  "threeFrames = [1, 0, 0, 0, 232, 3, 0, 0, 0, 0, 0, 0, 170,
                  1, 0, 0, 0, 208, 7, 0, 0, 0, 0, 0, 0, 187,
                  1, 0, 0, 0, 184, 11, 0, 0, 0, 0, 0, 0, 204]"
  by (simp add: threeFrames_def frame_def le_bytes_numeral)

text \<open>
  C8, on three frames recorded at 1000, 2000 and 3000 ms and replayed from time 5000
  at speed 1, the clock reading 5000, 5000, 6000 and 7000 at the four calls. The
  second frame, recorded one second after the first, is sent by a call scheduled with
  \<open>setImmediate\<close>; the wait of 1000 ms computed from its timestamp is applied to the
  third frame, recorded two seconds after the first. At speed 2 the same happens with
  the waits halved.
\<close>

theorem replay_sends_before_waiting:
  "startReplay udpSendable threeFrames 1 5000 [5000, 5000, 6000, 7000] =
     ([([170], Immediate), ([187], Immediate), ([204], Timeout 1000)], Completed)
   \<and> startReplay udpSendable threeFrames 2 5000 [5000, 5000, 5500, 6000] =
     ([([170], Immediate), ([187], Immediate), ([204], Timeout 500)], Completed)"
  by (simp add: threeFrames_bytes startReplay_def initialReplay_def sendNextPacket_def
      readUIntLE_def in_range_def slice_def replayDelay_def udpSendable_def Let_def)

end
